theory Spec2Isabelle
  imports Main "HOL-Library.Word"
begin

unbundle bit_operations_syntax

section \<open>Data model of ds_oc.c\<close>

text \<open>
  The module keeps four globals: the table \<open>restore_infos\<close> of \<open>MAX_PATCHED_EPS\<close>
  entries, the counter \<open>num_actually_patched_eps\<close>, the pointer \<open>dualsense_device\<close>
  and the parameter \<open>configured_interval\<close>. Kernel memory is a map from addresses to
  device structures, and every call into the USB core is appended to a log, so that
  what the module asked of the kernel, and in which order, can be stated.
  \<open>printk\<close> output is not modelled.
\<close>

record ep_restore_info =
  ep_address :: "8 word"
  original_interval :: "16 word"

definition MAX_PATCHED_EPS :: int where
  "MAX_PATCHED_EPS = 2"

definition DS_VID :: "16 word" where
  "DS_VID = 0x054c"

definition DS_PID :: "16 word" where
  "DS_PID = 0x0ce6"

text \<open>
  Modelled from the spec: \<open>USB_CLASS_HID\<close>, \<open>USB_DEVICE_ADD\<close>,
  \<open>USB_DEVICE_REMOVE\<close> and \<open>NOTIFY_OK\<close> are constants of kernel headers,
  absent from the repository. The spec names them as the HID class and the Add and
  Remove actions of the hotplug callback; the values are those of the headers (the
  source's own comment gives 3 for the HID class).
\<close>

definition USB_CLASS_HID :: "8 word" where
  "USB_CLASS_HID = 3"

definition USB_DEVICE_ADD :: "64 word" where
  "USB_DEVICE_ADD = 1"

definition USB_DEVICE_REMOVE :: "64 word" where
  "USB_DEVICE_REMOVE = 2"

definition NOTIFY_OK :: int where
  "NOTIFY_OK = 1"

text \<open>The fields of the kernel's descriptor structures that the module reads or writes.\<close>

record usb_endpoint_descriptor =
  bEndpointAddress :: "8 word"
  bmAttributes :: "8 word"
  bInterval :: "8 word"

record usb_host_interface =
  bInterfaceNumber :: "8 word"
  bInterfaceClass :: "8 word"
  bNumEndpoints :: "8 word"
  endpoint :: "usb_endpoint_descriptor list"

record usb_interface =
  cur_altsetting :: "usb_host_interface option"

record usb_host_config =
  bNumInterfaces :: "8 word"
  interface :: "usb_interface option list"

record usb_device =
  idVendor :: "16 word"
  idProduct :: "16 word"
  actconfig :: "usb_host_config option"

text \<open>Calls into the USB core, each with the address of the device it is made on.\<close>

datatype kcall =
    Usb_get_dev nat
  | Usb_put_dev nat
  | Usb_lock_device_for_reset nat
  | Usb_reset_device nat
  | Usb_unlock_device nat
  | Usb_register_notify
  | Usb_unregister_notify

record module_state =
  restore_infos :: "ep_restore_info list"
  num_actually_patched_eps :: int
  dualsense_device :: "nat option"
  configured_interval :: "16 word"
  memory :: "nat \<Rightarrow> usb_device"
  calls :: "kcall list"

section \<open>The patch/restore engine\<close>

text \<open>
  Modelled from the spec: \<open>usb_endpoint_is_int_in\<close> and \<open>usb_endpoint_is_int_out\<close>
  are inline helpers of \<open>linux/usb/ch9.h\<close>, absent from the repository. The spec
  describes them as the direction/type predicate "is this an interrupt-in /
  interrupt-out endpoint"; they are given here by the USB descriptor encoding
  (transfer type in the two low bits of \<open>bmAttributes\<close>, direction in bit 7 of
  \<open>bEndpointAddress\<close>). The proofs below use only that they do not read
  \<open>bInterval\<close>.
\<close>

definition usb_endpoint_is_int_in :: "usb_endpoint_descriptor \<Rightarrow> bool" where
  "usb_endpoint_is_int_in epd \<longleftrightarrow>
     bmAttributes epd AND 0x03 = 0x03 \<and> bEndpointAddress epd AND 0x80 = 0x80"

definition usb_endpoint_is_int_out :: "usb_endpoint_descriptor \<Rightarrow> bool" where
  "usb_endpoint_is_int_out epd \<longleftrightarrow>
     bmAttributes epd AND 0x03 = 0x03 \<and> bEndpointAddress epd AND 0x80 = 0x00"

text \<open>The test of line 64: an interrupt endpoint in either direction.\<close>

definition is_int_ep :: "usb_endpoint_descriptor \<Rightarrow> bool" where
  "is_int_ep epd \<longleftrightarrow> usb_endpoint_is_int_in epd \<or> usb_endpoint_is_int_out epd"

text \<open>
  The search loop of lines 70-78, run over the first \<open>num_actually_patched_eps\<close>
  entries of the table: the first entry with the endpoint's address gives the target.
\<close>

fun find_restore_info :: "ep_restore_info list \<Rightarrow> 8 word \<Rightarrow> 16 word option" where
  "find_restore_info [] addr = None"
| "find_restore_info (r # rs) addr =
     (if ep_address r = addr then Some (original_interval r) else find_restore_info rs addr)"

text \<open>
  The state of one walk: the table, the counter and the local \<open>changed_anything\<close>.
\<close>

type_synonym walk_state = "ep_restore_info list \<times> int \<times> bool"

text \<open>
  Lines 100-110. The comparison is made after integer promotion, so the 8-bit field
  is widened; the assignment narrows the 16-bit target to the 8-bit field.
\<close>

definition write_interval ::
  "bool \<Rightarrow> 16 word \<Rightarrow> usb_endpoint_descriptor \<Rightarrow> walk_state
     \<Rightarrow> usb_endpoint_descriptor \<times> walk_state" where
  "write_interval restore target_binterval epd st =
     (case st of (infos, num, changed_anything) \<Rightarrow>
        if ucast (bInterval epd) \<noteq> target_binterval
        then (epd\<lparr>bInterval := ucast target_binterval\<rparr>,
              (infos, (if \<not> restore then num + 1 else num), True))
        else (epd, (infos, num, changed_anything)))"

text \<open>
  The body of the endpoint loop, lines 60-111. In patch mode the entry is written at
  index \<open>num_actually_patched_eps\<close> before the comparison, and the counter moves only
  when the interval was changed. The counter is a C \<open>int\<close> that patch mode sets to 0
  and raises to 2 at most, so it never wraps and the index is never negative.
\<close>

definition endpoint_step ::
  "bool \<Rightarrow> 16 word \<Rightarrow> usb_endpoint_descriptor \<Rightarrow> walk_state
     \<Rightarrow> usb_endpoint_descriptor \<times> walk_state" where
  "endpoint_step restore cfg epd st =
     (case st of (infos, num, changed_anything) \<Rightarrow>
        if is_int_ep epd then
          if restore then
            (case find_restore_info (take (nat num) infos) (bEndpointAddress epd) of
               None \<Rightarrow> (epd, st)
             | Some target_binterval \<Rightarrow> write_interval restore target_binterval epd st)
          else if num < MAX_PATCHED_EPS then
            write_interval restore cfg epd
              (infos[nat num := \<lparr>ep_address = bEndpointAddress epd,
                                original_interval = ucast (bInterval epd)\<rparr>],
               num, changed_anything)
          else (epd, st)
        else (epd, st))"

text \<open>The endpoint loop of line 59, over the endpoints in array order.\<close>

fun walk_endpoints ::
  "bool \<Rightarrow> 16 word \<Rightarrow> usb_endpoint_descriptor list \<Rightarrow> walk_state
     \<Rightarrow> usb_endpoint_descriptor list \<times> walk_state" where
  "walk_endpoints restore cfg [] st = ([], st)"
| "walk_endpoints restore cfg (epd # eps) st =
     (case endpoint_step restore cfg epd st of (epd', st') \<Rightarrow>
        (case walk_endpoints restore cfg eps st' of (eps', st'') \<Rightarrow> (epd' # eps', st'')))"

text \<open>
  The loop visits the first \<open>bNumEndpoints\<close> entries of the endpoint array. The kernel
  allocates exactly that many, so the \<open>take\<close> and \<open>drop\<close> are the identity and the
  empty list on every descriptor the kernel has parsed.
\<close>

definition walk_altsetting ::
  "bool \<Rightarrow> 16 word \<Rightarrow> usb_host_interface \<Rightarrow> walk_state
     \<Rightarrow> usb_host_interface \<times> walk_state" where
  "walk_altsetting restore cfg alt st =
     (case walk_endpoints restore cfg (take (unat (bNumEndpoints alt)) (endpoint alt)) st of
        (eps', st') \<Rightarrow>
          (alt\<lparr>endpoint := eps' @ drop (unat (bNumEndpoints alt)) (endpoint alt)\<rparr>, st'))"

text \<open>
  The interface loop of lines 45-117: null interfaces and null alternate settings
  are skipped, the first interface of class HID is walked, and the loop stops there.
\<close>

fun walk_interfaces ::
  "bool \<Rightarrow> 16 word \<Rightarrow> usb_interface option list \<Rightarrow> walk_state
     \<Rightarrow> usb_interface option list \<times> walk_state" where
  "walk_interfaces restore cfg [] st = ([], st)"
| "walk_interfaces restore cfg (None # rest) st =
     (case walk_interfaces restore cfg rest st of (rest', st') \<Rightarrow> (None # rest', st'))"
| "walk_interfaces restore cfg (Some intf # rest) st =
     (case cur_altsetting intf of
        None \<Rightarrow>
          (case walk_interfaces restore cfg rest st of
             (rest', st') \<Rightarrow> (Some intf # rest', st'))
      | Some alt \<Rightarrow>
          if bInterfaceClass alt = USB_CLASS_HID then
            (case walk_altsetting restore cfg alt st of
               (alt', st') \<Rightarrow> (Some (intf\<lparr>cur_altsetting := Some alt'\<rparr>) # rest, st'))
          else
            (case walk_interfaces restore cfg rest st of
               (rest', st') \<Rightarrow> (Some intf # rest', st')))"

text \<open>
  Lines 30-117 of \<open>patch_or_restore_dualsense_endpoints\<close>: the guard, the reset of
  the counter in patch mode, and the walk over the first \<open>bNumInterfaces\<close> entries
  of the interface array (unused entries of that array are null). The result carries
  the local \<open>changed_anything\<close> with the new state.
\<close>

definition walk_dualsense_endpoints :: "bool \<Rightarrow> module_state \<Rightarrow> bool \<times> module_state" where
  "walk_dualsense_endpoints restore s =
     (case dualsense_device s of
        None \<Rightarrow> (False, s)
      | Some dev \<Rightarrow>
          (case actconfig (memory s dev) of
             None \<Rightarrow> (False, s)
           | Some config \<Rightarrow>
               (case walk_interfaces restore (configured_interval s)
                       (take (unat (bNumInterfaces config)) (interface config))
                       (restore_infos s,
                        (if \<not> restore then 0 else num_actually_patched_eps s), False) of
                  (intfs', infos', num', changed_anything) \<Rightarrow>
                    (changed_anything,
                     s\<lparr>restore_infos := infos',
                       num_actually_patched_eps := num',
                       memory := (memory s)(dev := (memory s dev)
                         \<lparr>actconfig := Some (config\<lparr>interface :=
                            intfs' @ drop (unat (bNumInterfaces config)) (interface config)\<rparr>)\<rparr>)\<rparr>))))"

text \<open>
  Lines 119-138: the reset. \<open>ret_lock\<close> and \<open>ret_reset\<close> are what the kernel's
  \<open>usb_lock_device_for_reset\<close> and \<open>usb_reset_device\<close> return (0 on success);
  the three kernel calls are logged, and following the spec the descriptors in memory
  stay as the walk wrote them whatever the reset returns. The block is only reached
  with a device in the slot (line 30 returns otherwise).
\<close>

definition reset_device :: "int \<Rightarrow> int \<Rightarrow> module_state \<Rightarrow> module_state" where
  "reset_device ret_lock ret_reset s =
     (case dualsense_device s of
        None \<Rightarrow> s
      | Some dev \<Rightarrow>
          s\<lparr>calls := calls s @ [Usb_lock_device_for_reset dev, Usb_reset_device dev]
                      @ (if ret_lock = 0 then [Usb_unlock_device dev] else [])\<rparr>)"

definition patch_or_restore_dualsense_endpoints ::
  "bool \<Rightarrow> int \<Rightarrow> int \<Rightarrow> module_state \<Rightarrow> module_state" where
  "patch_or_restore_dualsense_endpoints restore ret_lock ret_reset s =
     (case walk_dualsense_endpoints restore s of
        (changed_anything, s') \<Rightarrow>
          if changed_anything then reset_device ret_lock ret_reset s' else s')"

section \<open>The hotplug notifier and the enumeration callback\<close>

text \<open>
  Lines 142-175 and 182-196. The kernel's \<open>usb_get_dev\<close> takes a reference on
  the device and returns the pointer it is given, \<open>usb_put_dev\<close> gives the
  reference back; both calls are logged. The notifier receives the action and the
  address of the device and always returns \<open>NOTIFY_OK\<close>.
\<close>

definition on_usb_notify ::
  "64 word \<Rightarrow> nat \<Rightarrow> int \<Rightarrow> int \<Rightarrow> module_state \<Rightarrow> int \<times> module_state" where
  "on_usb_notify action device ret_lock ret_reset s =
     (if idVendor (memory s device) \<noteq> DS_VID \<or> idProduct (memory s device) \<noteq> DS_PID
      then (NOTIFY_OK, s)
      else if action = USB_DEVICE_ADD then
        (if dualsense_device s = None
         then (NOTIFY_OK,
               patch_or_restore_dualsense_endpoints False ret_lock ret_reset
                 (s\<lparr>dualsense_device := Some device,
                    calls := calls s @ [Usb_get_dev device]\<rparr>))
         else (NOTIFY_OK, s))
      else if action = USB_DEVICE_REMOVE then
        (if dualsense_device s = Some device
         then (NOTIFY_OK,
               s\<lparr>calls := calls s @ [Usb_put_dev device],
                 dualsense_device := None,
                 num_actually_patched_eps := 0\<rparr>)
         else (NOTIFY_OK, s))
      else (NOTIFY_OK, s))"

definition check_existing_device_cb ::
  "nat \<Rightarrow> int \<Rightarrow> int \<Rightarrow> module_state \<Rightarrow> int \<times> module_state" where
  "check_existing_device_cb device ret_lock ret_reset s =
     (if idVendor (memory s device) = DS_VID \<and> idProduct (memory s device) = DS_PID then
        (if dualsense_device s = None
         then (1,
               patch_or_restore_dualsense_endpoints False ret_lock ret_reset
                 (s\<lparr>dualsense_device := Some device,
                    calls := calls s @ [Usb_get_dev device]\<rparr>))
         else (1, s))
      else (0, s))"

section \<open>Module entry points and the rate parameter\<close>

text \<open>Lines 201-207 and 249-255: the same validation in both places.\<close>

definition clamp_configured_interval :: "module_state \<Rightarrow> module_state" where
  "clamp_configured_interval s =
     (if configured_interval s = 0 then s\<lparr>configured_interval := 1\<rparr>
      else if configured_interval s > 255 then s\<lparr>configured_interval := 255\<rparr>
      else s)"

text \<open>
  Modelled from the spec: \<open>usb_for_each_dev\<close> is a kernel function, absent from the
  repository. The spec (initial enumeration interface) has it call the visitor on each
  device present, the visitor returning a signal to stop early: it stops at the first
  non-zero return.
\<close>

fun usb_for_each_dev ::
  "(nat \<Rightarrow> module_state \<Rightarrow> int \<times> module_state) \<Rightarrow> nat list \<Rightarrow> module_state \<Rightarrow> module_state" where
  "usb_for_each_dev fn [] s = s"
| "usb_for_each_dev fn (device # rest) s =
     (case fn device s of (ret, s') \<Rightarrow> if ret \<noteq> 0 then s' else usb_for_each_dev fn rest s')"

definition ds_oc_init :: "nat list \<Rightarrow> int \<Rightarrow> int \<Rightarrow> module_state \<Rightarrow> int \<times> module_state" where
  "ds_oc_init present ret_lock ret_reset s =
     (let s1 = clamp_configured_interval s;
          s2 = usb_for_each_dev (\<lambda>device. check_existing_device_cb device ret_lock ret_reset)
                 present s1
      in (0, s2\<lparr>calls := calls s2 @ [Usb_register_notify]\<rparr>))"

definition ds_oc_exit :: "int \<Rightarrow> int \<Rightarrow> module_state \<Rightarrow> module_state" where
  "ds_oc_exit ret_lock ret_reset s =
     (let s1 = s\<lparr>calls := calls s @ [Usb_unregister_notify]\<rparr>
      in case dualsense_device s1 of
           None \<Rightarrow> s1
         | Some dev \<Rightarrow>
             (let s2 = patch_or_restore_dualsense_endpoints True ret_lock ret_reset s1
              in s2\<lparr>calls := calls s2 @ [Usb_put_dev dev], dualsense_device := None\<rparr>))"

text \<open>
  Modelled from the spec: \<open>param_set_ushort\<close> is a kernel function, absent from the
  repository; the spec leaves the parameter plumbing as glue. It parses the string it
  is given: on success it stores the value in \<open>configured_interval\<close> and returns
  0, on failure it returns an error code and stores nothing. The outcome of the parse
  is the argument here.
\<close>

definition param_set_ushort :: "int + 16 word \<Rightarrow> module_state \<Rightarrow> int \<times> module_state" where
  "param_set_ushort parsed s =
     (case parsed of
        Inl err \<Rightarrow> (err, s)
      | Inr v \<Rightarrow> (0, s\<lparr>configured_interval := v\<rparr>))"

definition on_interval_changed ::
  "int + 16 word \<Rightarrow> int \<Rightarrow> int \<Rightarrow> module_state \<Rightarrow> int \<times> module_state" where
  "on_interval_changed parsed ret_lock ret_reset s =
     (case param_set_ushort parsed s of
        (ret, s1) \<Rightarrow>
          if ret = 0 then
            (let s2 = clamp_configured_interval s1
             in if dualsense_device s2 \<noteq> None
                then (ret, patch_or_restore_dualsense_endpoints False ret_lock ret_reset s2)
                else (ret, s2))
          else (ret, s1))"

section \<open>Observations used to state the properties\<close>

text \<open>
  The alternate setting that the interface loop selects: the one of the first
  interface that is present, has a current alternate setting, and is of class HID.
\<close>

fun first_hid :: "usb_interface option list \<Rightarrow> usb_host_interface option" where
  "first_hid [] = None"
| "first_hid (None # rest) = first_hid rest"
| "first_hid (Some intf # rest) =
     (case cur_altsetting intf of
        None \<Rightarrow> first_hid rest
      | Some alt \<Rightarrow> if bInterfaceClass alt = USB_CLASS_HID then Some alt else first_hid rest)"

text \<open>
  The endpoints the engine visits in a state, in order: those of the HID interface of
  the managed device, and none when no device is managed, the device has no active
  configuration, or the configuration has no HID interface.
\<close>

definition hid_endpoints :: "module_state \<Rightarrow> usb_endpoint_descriptor list" where
  "hid_endpoints s =
     (case dualsense_device s of
        None \<Rightarrow> []
      | Some dev \<Rightarrow>
          (case actconfig (memory s dev) of
             None \<Rightarrow> []
           | Some config \<Rightarrow>
               (case first_hid (take (unat (bNumInterfaces config)) (interface config)) of
                  None \<Rightarrow> []
                | Some alt \<Rightarrow> take (unat (bNumEndpoints alt)) (endpoint alt))))"

text \<open>
  An interrupt endpoint whose interval differs from the target: the endpoints a patch
  walk would change, were there room in the table.
\<close>

definition needs_patch :: "16 word \<Rightarrow> usb_endpoint_descriptor \<Rightarrow> bool" where
  "needs_patch cfg epd \<longleftrightarrow> is_int_ep epd \<and> ucast (bInterval epd) \<noteq> cfg"

text \<open>The table entry that lines 87-88 write for an endpoint.\<close>

definition entry_of :: "usb_endpoint_descriptor \<Rightarrow> ep_restore_info" where
  "entry_of epd =
     \<lparr>ep_address = bEndpointAddress epd, original_interval = ucast (bInterval epd)\<rparr>"

text \<open>
  What a restore walk does to one endpoint for a given table and counter, and whether
  it writes the interval.
\<close>

definition restore_one ::
  "ep_restore_info list \<Rightarrow> int \<Rightarrow> usb_endpoint_descriptor \<Rightarrow> usb_endpoint_descriptor" where
  "restore_one infos n epd =
     (if is_int_ep epd then
        (case find_restore_info (take (nat n) infos) (bEndpointAddress epd) of
           None \<Rightarrow> epd
         | Some v \<Rightarrow> epd\<lparr>bInterval := ucast v\<rparr>)
      else epd)"

definition restore_changes ::
  "ep_restore_info list \<Rightarrow> int \<Rightarrow> usb_endpoint_descriptor \<Rightarrow> bool" where
  "restore_changes infos n epd \<longleftrightarrow>
     is_int_ep epd \<and>
     (case find_restore_info (take (nat n) infos) (bEndpointAddress epd) of
        None \<Rightarrow> False
      | Some v \<Rightarrow> ucast (bInterval epd) \<noteq> v)"

text \<open>
  The device references the module holds after a log of kernel calls: \<open>usb_get_dev\<close>
  takes one, \<open>usb_put_dev\<close> gives one back.
\<close>

fun held_after :: "nat list \<Rightarrow> kcall list \<Rightarrow> nat list" where
  "held_after held [] = held"
| "held_after held (Usb_get_dev d # cs) = held_after (d # held) cs"
| "held_after held (Usb_put_dev d # cs) = held_after (remove1 d held) cs"
| "held_after held (_ # cs) = held_after held cs"

definition acquired :: "kcall list \<Rightarrow> nat list" where
  "acquired cs = held_after [] cs"

text \<open>
  The events that reach the module while it is loaded: a notifier call, a visit of
  the enumeration callback, a write of the rate parameter. Each carries what the
  kernel would answer to a lock and a reset made while it is handled.
\<close>

datatype event =
    Hotplug "64 word" nat int int
  | Enumerate nat int int
  | Rate_change "int + 16 word" int int

fun deliver :: "event \<Rightarrow> module_state \<Rightarrow> module_state" where
  "deliver (Hotplug action device ret_lock ret_reset) s =
     snd (on_usb_notify action device ret_lock ret_reset s)"
| "deliver (Enumerate device ret_lock ret_reset) s =
     snd (check_existing_device_cb device ret_lock ret_reset s)"
| "deliver (Rate_change parsed ret_lock ret_reset) s =
     snd (on_interval_changed parsed ret_lock ret_reset s)"

fun run :: "event list \<Rightarrow> module_state \<Rightarrow> module_state" where
  "run [] s = s"
| "run (ev # evs) s = run evs (deliver ev s)"

text \<open>The module holds exactly one reference, on the device in the slot, or none.\<close>

definition one_reference :: "module_state \<Rightarrow> bool" where
  "one_reference s \<longleftrightarrow>
     acquired (calls s) = (case dualsense_device s of None \<Rightarrow> [] | Some dev \<Rightarrow> [dev])"

text \<open>The device in the slot, if any, carries the DualSense ids.\<close>

definition managed_is_dualsense :: "module_state \<Rightarrow> bool" where
  "managed_is_dualsense s \<longleftrightarrow>
     (case dualsense_device s of
        None \<Rightarrow> True
      | Some dev \<Rightarrow> idVendor (memory s dev) = DS_VID \<and> idProduct (memory s dev) = DS_PID)"

subsection \<open>Example devices\<close>

text \<open>
  A DualSense as \<open>lsusb\<close> shows it: an audio interface, then the HID interface with an
  interrupt IN and an interrupt OUT endpoint of interval 6. A third interrupt endpoint
  is added for the capacity cases.
\<close>

definition example_in :: usb_endpoint_descriptor where
  "example_in = \<lparr>bEndpointAddress = 0x84, bmAttributes = 3, bInterval = 6\<rparr>"

definition example_out :: usb_endpoint_descriptor where
  "example_out = \<lparr>bEndpointAddress = 0x03, bmAttributes = 3, bInterval = 6\<rparr>"

definition example_third :: usb_endpoint_descriptor where
  "example_third = \<lparr>bEndpointAddress = 0x85, bmAttributes = 3, bInterval = 8\<rparr>"

definition example_device :: "8 word \<Rightarrow> usb_endpoint_descriptor list \<Rightarrow> usb_device" where
  "example_device n eps =
     \<lparr>idVendor = 0x054c, idProduct = 0x0ce6,
      actconfig = Some \<lparr>bNumInterfaces = 2, interface =
        [Some \<lparr>cur_altsetting = Some \<lparr>bInterfaceNumber = 0, bInterfaceClass = 1,
                                       bNumEndpoints = 0, endpoint = []\<rparr>\<rparr>,
         Some \<lparr>cur_altsetting = Some \<lparr>bInterfaceNumber = 3, bInterfaceClass = 3,
                                       bNumEndpoints = n, endpoint = eps\<rparr>\<rparr>]\<rparr>\<rparr>"

text \<open>The module managing the example device at address 1, nothing patched yet.\<close>

definition example_managed ::
  "8 word \<Rightarrow> usb_endpoint_descriptor list \<Rightarrow> 16 word \<Rightarrow> module_state" where
  "example_managed n eps cfg =
     \<lparr>restore_infos = [\<lparr>ep_address = 0, original_interval = 0\<rparr>,
                       \<lparr>ep_address = 0, original_interval = 0\<rparr>],
      num_actually_patched_eps = 0,
      dualsense_device = Some 1,
      configured_interval = cfg,
      memory = (\<lambda>_. example_device n eps),
      calls = [Usb_get_dev 1]\<rparr>"

text \<open>The module just loaded, with the example device on the bus and none managed.\<close>

definition example_unmanaged :: module_state where
  "example_unmanaged =
     \<lparr>restore_infos = [\<lparr>ep_address = 0, original_interval = 0\<rparr>,
                       \<lparr>ep_address = 0, original_interval = 0\<rparr>],
      num_actually_patched_eps = 0,
      dualsense_device = None,
      configured_interval = 1,
      memory = (\<lambda>_. example_device 2 [example_in, example_out]),
      calls = []\<rparr>"

definition example_two :: module_state where
  "example_two = example_managed 2 [example_in, example_out] 1"

definition example_three :: module_state where
  "example_three = example_managed 3 [example_in, example_out, example_third] 1"

text \<open>The IN endpoint already polls at interval 1, the OUT endpoint does not.\<close>

definition example_mixed :: module_state where
  "example_mixed = example_managed 2 [example_in\<lparr>bInterval := 1\<rparr>, example_out] 1"

text \<open>
  Three interrupt endpoints, the first of them at interval 1 already, so that a patch
  with target 1 has room for the third and a following patch with target 2 has not.
\<close>

definition example_crowded :: module_state where
  "example_crowded =
     example_managed 3 [example_in\<lparr>bInterval := 1\<rparr>, example_out, example_third] 1"

text \<open>
  A DualSense is plugged in at address 1, a second one at address 2, enumeration
  visits a third, and the second is unplugged.
\<close>

definition example_events :: "event list" where
  "example_events =
     [Hotplug USB_DEVICE_ADD 1 0 0, Hotplug USB_DEVICE_ADD 2 0 0, Enumerate 3 0 0,
      Hotplug USB_DEVICE_REMOVE 2 0 0]"

section \<open>Properties of the walks\<close>

subsection \<open>The endpoint loop\<close>

text \<open>
  Widening the 8-bit field to the 16-bit target and narrowing it again gives the field
  back; the other way round this holds for targets up to 255.
\<close>

lemma ucast_down_up: "(ucast (ucast (x :: 8 word) :: 16 word) :: 8 word) = x"
  by (simp add: ucast_down_ucast_id is_down)

lemma ucast_up_down:
  assumes "(T :: 16 word) \<le> 255"
  shows "ucast (ucast T :: 8 word) = T"
proof -
  have "unat T < 2 ^ 8" using assms by (simp add: word_le_nat_alt)
  then have "take_bit 8 (unat T) = unat T" by (rule take_bit_nat_eq_self)
  then have "unat (ucast (ucast T :: 8 word) :: 16 word) = unat T"
    by (simp add: unsigned_ucast_eq unsigned_take_bit_eq)
  then show ?thesis by (rule word_unat_eq_iff[THEN iffD2])
qed

lemma walk_endpoints_length:
  "length (fst (walk_endpoints r cfg eps st)) = length eps"
  by (induction eps arbitrary: st) (simp_all add: case_prod_beta)

lemma walk_endpoints_nth:
  "j < length eps \<Longrightarrow>
   fst (walk_endpoints r cfg eps st) ! j =
     fst (endpoint_step r cfg (eps ! j) (snd (walk_endpoints r cfg (take j eps) st)))"
proof (induction eps arbitrary: st j)
  case Nil then show ?case by simp
next
  case (Cons e es)
  show ?case
  proof (cases j)
    case 0 then show ?thesis by (simp add: case_prod_beta)
  next
    case (Suc k)
    with Cons.prems have "k < length es" by simp
    from Cons.IH[OF this] Suc show ?thesis by (simp add: case_prod_beta)
  qed
qed

text \<open>
  One step in patch mode, by cases: the endpoint is patched and committed, or it is
  recorded without being committed, or it is left alone.
\<close>

lemma patch_step:
  "endpoint_step False cfg epd (infos, n, ch) =
     (if needs_patch cfg epd \<and> n < 2
      then (epd\<lparr>bInterval := ucast cfg\<rparr>, (infos[nat n := entry_of epd], n + 1, True))
      else if is_int_ep epd \<and> n < 2 then (epd, (infos[nat n := entry_of epd], n, ch))
      else (epd, (infos, n, ch)))"
  by (auto simp: endpoint_step_def write_interval_def needs_patch_def entry_of_def MAX_PATCHED_EPS_def)

text \<open>
  The table after a patch walk: the counter is the number of endpoints that needed
  patching, capped at 2, and the committed entries are the entries of the first of
  them, in order.
\<close>

lemma patch_walk_store:
  "0 \<le> n \<Longrightarrow> n \<le> 2 \<Longrightarrow> 2 \<le> length infos \<Longrightarrow>
   walk_endpoints False cfg eps (infos, n, ch) = (eps', infos', n', ch') \<Longrightarrow>
     n' = min 2 (n + int (length (filter (needs_patch cfg) eps))) \<and>
     length infos' = length infos \<and>
     take (nat n') infos' =
       take (nat n) infos @ map entry_of (take (nat (2 - n)) (filter (needs_patch cfg) eps)) \<and>
     (ch' \<longleftrightarrow> ch \<or> (n < 2 \<and> filter (needs_patch cfg) eps \<noteq> []))"
proof (induction eps arbitrary: infos n ch eps' infos' n' ch')
  case Nil
  then show ?case by auto
next
  case (Cons e es)
  obtain e1 infos1 n1 ch1 where st: "endpoint_step False cfg e (infos, n, ch) = (e1, infos1, n1, ch1)"
    by (metis prod_cases4)
  obtain es1 where w: "walk_endpoints False cfg es (infos1, n1, ch1) = (es1, infos', n', ch')"
    using Cons.prems(4) st by (auto split: prod.splits)
  show ?case
  proof (cases "needs_patch cfg e \<and> n < 2")
    case True
    with st have eq: "infos1 = infos[nat n := entry_of e]" "n1 = n + 1" "ch1 = True"
      by (auto simp: patch_step)
    have pre: "0 \<le> n1" "n1 \<le> 2" "2 \<le> length infos1" using True Cons.prems eq by auto
    note IH = Cons.IH[OF pre w]
    have nn: "nat n1 = Suc (nat n)" using eq Cons.prems by simp
    have lt: "nat n < length infos" using True Cons.prems by auto
    have "take (Suc (nat n)) (infos[nat n := entry_of e]) = take (nat n) infos @ [entry_of e]"
      using lt by (simp add: take_Suc_conv_app_nth)
    then have t1: "take (nat n1) infos1 = take (nat n) infos @ [entry_of e]"
      using nn eq(1) by simp
    have n2: "n < 2" using True by simp
    have t2: "nat (2 - n) = Suc (nat (2 - n1))" using eq(2) n2 by simp
    show ?thesis using IH True unfolding t1 t2 by (auto simp: eq)
  next
    case False
    with st have eq: "take (nat n) infos1 = take (nat n) infos" "n1 = n" "ch1 = ch" "length infos1 = length infos"
      by (auto simp: patch_step split: if_splits)
    have pre: "0 \<le> n1" "n1 \<le> 2" "2 \<le> length infos1" using Cons.prems eq by auto
    note IH = Cons.IH[OF pre w]
    show ?thesis
    proof (cases "needs_patch cfg e")
      case True
      with False have "n = 2" using Cons.prems by simp
      then show ?thesis using IH eq True by auto
    next
      case F2: False
      then show ?thesis using IH eq by auto
    qed
  qed
qed

subsection \<open>Restore mode\<close>

text \<open>A restore walk treats each endpoint on its own and never writes the table.\<close>

lemma restore_step:
  "endpoint_step True cfg epd (infos, n, ch) =
     (restore_one infos n epd, (infos, n, ch \<or> restore_changes infos n epd))"
proof -
  have "epd\<lparr>bInterval := ucast (ucast (bInterval epd) :: 16 word)\<rparr> = epd"
    by (simp add: ucast_down_up)
  then show ?thesis
    by (auto simp: endpoint_step_def write_interval_def restore_one_def restore_changes_def
        split: option.splits)
qed

lemma restore_walk:
  "walk_endpoints True cfg eps (infos, n, ch) =
     (map (restore_one infos n) eps, (infos, n, ch \<or> (\<exists>epd\<in>set eps. restore_changes infos n epd)))"
  by (induction eps arbitrary: ch) (auto simp: restore_step)

subsection \<open>From the endpoint loop to the module state\<close>

text \<open>
  The engine's walk over the managed device is the endpoint loop over
  \<open>hid_endpoints\<close>: it starts from the table of the state, ends in the table of the
  new state, and the endpoints of the new state are the ones the loop returns. Nothing
  else of the state changes, and memory is untouched when the loop returns the
  endpoints as they were.
\<close>

lemma take_append_drop_same:
  "length xs' = length (take n xs) \<Longrightarrow> take n (xs' @ drop n xs) = xs'"
  by (cases "n \<le> length xs") auto

lemma walk_altsetting_fst:
  "fst (walk_altsetting r cfg alt st) =
     alt\<lparr>endpoint := fst (walk_endpoints r cfg (take (unat (bNumEndpoints alt)) (endpoint alt)) st)
                      @ drop (unat (bNumEndpoints alt)) (endpoint alt)\<rparr>"
  by (simp add: walk_altsetting_def case_prod_beta)

lemma walk_altsetting_snd:
  "snd (walk_altsetting r cfg alt st) =
     snd (walk_endpoints r cfg (take (unat (bNumEndpoints alt)) (endpoint alt)) st)"
  by (simp add: walk_altsetting_def case_prod_beta)

lemma walk_altsetting_endpoints:
  "take (unat (bNumEndpoints (fst (walk_altsetting r cfg alt st))))
        (endpoint (fst (walk_altsetting r cfg alt st))) =
   fst (walk_endpoints r cfg (take (unat (bNumEndpoints alt)) (endpoint alt)) st)"
proof -
  have "length (fst (walk_endpoints r cfg (take (unat (bNumEndpoints alt)) (endpoint alt)) st))
          = length (take (unat (bNumEndpoints alt)) (endpoint alt))"
    by (rule walk_endpoints_length)
  from take_append_drop_same[OF this] show ?thesis
    by (simp add: walk_altsetting_fst)
qed

lemma walk_altsetting_same:
  "fst (walk_endpoints r cfg (take (unat (bNumEndpoints alt)) (endpoint alt)) st)
     = take (unat (bNumEndpoints alt)) (endpoint alt) \<Longrightarrow>
   fst (walk_altsetting r cfg alt st) = alt"
  by (simp add: walk_altsetting_fst)

lemma walk_interfaces_none:
  "first_hid intfs = None \<Longrightarrow> walk_interfaces r cfg intfs st = (intfs, st)"
  by (induction intfs rule: first_hid.induct) (auto split: option.splits if_splits)

lemma walk_interfaces_some:
  "first_hid intfs = Some alt \<Longrightarrow>
     snd (walk_interfaces r cfg intfs st) = snd (walk_altsetting r cfg alt st) \<and>
     first_hid (fst (walk_interfaces r cfg intfs st)) = Some (fst (walk_altsetting r cfg alt st)) \<and>
     (fst (walk_altsetting r cfg alt st) = alt \<longrightarrow> fst (walk_interfaces r cfg intfs st) = intfs)"
  by (induction intfs rule: first_hid.induct)
     (auto simp: case_prod_beta walk_altsetting_fst split: option.splits if_splits)

lemma walk_interfaces_length:
  "length (fst (walk_interfaces r cfg intfs st)) = length intfs"
  by (induction intfs rule: first_hid.induct) (auto simp: case_prod_beta split: option.splits)

lemma walk_interfaces_hid:
  "walk_interfaces r cfg intfs st = (intfs', st') \<Longrightarrow>
   walk_endpoints r cfg
     (case first_hid intfs of None \<Rightarrow> [] | Some alt \<Rightarrow> take (unat (bNumEndpoints alt)) (endpoint alt)) st
   = ((case first_hid intfs' of None \<Rightarrow> [] | Some alt \<Rightarrow> take (unat (bNumEndpoints alt)) (endpoint alt)), st')"
proof (cases "first_hid intfs")
  case None
  assume "walk_interfaces r cfg intfs st = (intfs', st')"
  with None show ?thesis by (simp add: walk_interfaces_none)
next
  case (Some alt)
  assume w: "walk_interfaces r cfg intfs st = (intfs', st')"
  from walk_interfaces_some[OF Some, of r cfg st] w
  have "st' = snd (walk_altsetting r cfg alt st)"
    and "first_hid intfs' = Some (fst (walk_altsetting r cfg alt st))" by simp_all
  with Some show ?thesis
    by (simp add: walk_altsetting_endpoints walk_altsetting_snd)
qed

lemma walk_interfaces_same:
  "walk_interfaces r cfg intfs st = (intfs', st') \<Longrightarrow>
   (case first_hid intfs' of None \<Rightarrow> [] | Some alt \<Rightarrow> take (unat (bNumEndpoints alt)) (endpoint alt))
     = (case first_hid intfs of None \<Rightarrow> [] | Some alt \<Rightarrow> take (unat (bNumEndpoints alt)) (endpoint alt)) \<Longrightarrow>
   intfs' = intfs"
proof (cases "first_hid intfs")
  case None
  assume "walk_interfaces r cfg intfs st = (intfs', st')"
  with None show ?thesis by (simp add: walk_interfaces_none)
next
  case (Some alt)
  assume w: "walk_interfaces r cfg intfs st = (intfs', st')"
  assume same: "(case first_hid intfs' of None \<Rightarrow> [] | Some alt \<Rightarrow> take (unat (bNumEndpoints alt)) (endpoint alt))
     = (case first_hid intfs of None \<Rightarrow> [] | Some alt \<Rightarrow> take (unat (bNumEndpoints alt)) (endpoint alt))"
  from walk_interfaces_some[OF Some, of r cfg st] w
  have f: "first_hid intfs' = Some (fst (walk_altsetting r cfg alt st))"
    and imp: "fst (walk_altsetting r cfg alt st) = alt \<Longrightarrow> intfs' = intfs" by simp_all
  from same f Some have "fst (walk_endpoints r cfg (take (unat (bNumEndpoints alt)) (endpoint alt)) st)
     = take (unat (bNumEndpoints alt)) (endpoint alt)"
    by (simp add: walk_altsetting_endpoints)
  then show ?thesis by (intro imp walk_altsetting_same)
qed

lemma walk_dualsense_char:
  assumes dev: "dualsense_device s = Some dev"
    and cf: "actconfig (memory s dev) = Some config"
    and w: "walk_dualsense_endpoints restore s = (ch, s')"
  shows "walk_endpoints restore (configured_interval s) (hid_endpoints s)
           (restore_infos s, (if \<not> restore then 0 else num_actually_patched_eps s), False)
         = (hid_endpoints s', restore_infos s', num_actually_patched_eps s', ch)"
    and "dualsense_device s' = Some dev"
    and "configured_interval s' = configured_interval s"
    and "calls s' = calls s"
    and "hid_endpoints s' = hid_endpoints s \<Longrightarrow> memory s' = memory s"
    and "actconfig (memory s' dev) \<noteq> None"
    and "idVendor (memory s' d) = idVendor (memory s d)"
    and "idProduct (memory s' d) = idProduct (memory s d)"
    and "s' = s\<lparr>restore_infos := restore_infos s',
                 num_actually_patched_eps := num_actually_patched_eps s',
                 memory := memory s'\<rparr>"
proof -
  let ?n = "unat (bNumInterfaces config)"
  let ?st = "(restore_infos s, (if \<not> restore then 0 else num_actually_patched_eps s), False)"
  obtain intfs' infos' n' ch' where wi:
    "walk_interfaces restore (configured_interval s) (take ?n (interface config)) ?st
       = (intfs', infos', n', ch')"
    by (metis prod_cases4)
  have s': "s' = s\<lparr>restore_infos := infos', num_actually_patched_eps := n',
      memory := (memory s)(dev := (memory s dev)
        \<lparr>actconfig := Some (config\<lparr>interface := intfs' @ drop ?n (interface config)\<rparr>)\<rparr>)\<rparr>"
    and ch: "ch = ch'"
    using w dev cf wi by (simp_all add: walk_dualsense_endpoints_def)
  have len: "length intfs' = length (take ?n (interface config))"
    using walk_interfaces_length[of restore "configured_interval s" "take ?n (interface config)" ?st] wi
    by simp
  have tk: "take ?n (intfs' @ drop ?n (interface config)) = intfs'"
    by (rule take_append_drop_same[OF len])
  have h0: "hid_endpoints s = (case first_hid (take ?n (interface config)) of None \<Rightarrow> []
      | Some alt \<Rightarrow> take (unat (bNumEndpoints alt)) (endpoint alt))"
    using dev cf by (simp add: hid_endpoints_def)
  have h1: "hid_endpoints s' = (case first_hid intfs' of None \<Rightarrow> []
      | Some alt \<Rightarrow> take (unat (bNumEndpoints alt)) (endpoint alt))"
    using dev tk by (simp add: hid_endpoints_def s')
  show "walk_endpoints restore (configured_interval s) (hid_endpoints s) ?st
         = (hid_endpoints s', restore_infos s', num_actually_patched_eps s', ch)"
    using walk_interfaces_hid[OF wi] unfolding h0 h1 by (simp add: s' ch)
  show "dualsense_device s' = Some dev" using dev by (simp add: s')
  show "configured_interval s' = configured_interval s" by (simp add: s')
  show "calls s' = calls s" by (simp add: s')
  show "actconfig (memory s' dev) \<noteq> None" by (simp add: s')
  show "idVendor (memory s' d) = idVendor (memory s d)" by (simp add: s')
  show "idProduct (memory s' d) = idProduct (memory s d)" by (simp add: s')
  show "s' = s\<lparr>restore_infos := restore_infos s',
                 num_actually_patched_eps := num_actually_patched_eps s',
                 memory := memory s'\<rparr>" by (simp add: s')
  show "memory s' = memory s" if same: "hid_endpoints s' = hid_endpoints s"
  proof -
    from same have "intfs' = take ?n (interface config)"
      unfolding h0 h1 by (rule walk_interfaces_same[OF wi])
    then have "config\<lparr>interface := intfs' @ drop ?n (interface config)\<rparr> = config" by simp
    then have "(memory s dev)\<lparr>actconfig := Some (config\<lparr>interface := intfs' @ drop ?n (interface config)\<rparr>)\<rparr>
        = memory s dev" using cf by simp
    then show ?thesis by (simp add: s')
  qed
qed

subsection \<open>What a patch walk does to one endpoint\<close>

lemma is_int_ep_bInterval: "is_int_ep (epd\<lparr>bInterval := v\<rparr>) = is_int_ep epd"
  by (simp add: is_int_ep_def usb_endpoint_is_int_in_def usb_endpoint_is_int_out_def)

lemma filter_split_nth:
  "j < length xs \<Longrightarrow>
   filter P xs = filter P (take j xs) @ (if P (xs ! j) then [xs ! j] else []) @ filter P (drop (Suc j) xs)"
proof -
  assume "j < length xs"
  then have "xs = take j xs @ xs ! j # drop (Suc j) xs" by (rule id_take_nth_drop)
  then have "filter P xs = filter P (take j xs @ xs ! j # drop (Suc j) xs)" by simp
  then show ?thesis by simp
qed

lemma find_entry_None:
  "\<forall>epd\<in>set xs. bEndpointAddress epd \<noteq> a \<Longrightarrow> find_restore_info (map entry_of xs) a = None"
  by (induction xs) (auto simp: entry_of_def)

lemma find_entry_Some:
  "distinct (map bEndpointAddress xs) \<Longrightarrow> epd \<in> set xs \<Longrightarrow>
   find_restore_info (map entry_of xs) (bEndpointAddress epd) = Some (ucast (bInterval epd))"
  by (induction xs) (auto simp: entry_of_def)

lemma find_entry_bounded:
  "find_restore_info (map entry_of xs) a = Some v \<Longrightarrow> ucast (ucast v :: 8 word) = v"
  by (induction xs) (auto simp: entry_of_def ucast_down_up split: if_splits)

lemma needs_patch_filter:
  "filter (needs_patch cfg) xs = filter (\<lambda>epd. ucast (bInterval epd) \<noteq> cfg) (filter is_int_ep xs)"
  by (induction xs) (auto simp: needs_patch_def)

lemma distinct_needs_patch:
  assumes "distinct (map bEndpointAddress (filter is_int_ep xs))"
  shows "distinct (map bEndpointAddress (take k (filter (needs_patch cfg) xs)))"
proof -
  have "distinct (map bEndpointAddress (filter (needs_patch cfg) xs))"
    unfolding needs_patch_filter using assms by (rule distinct_map_filter)
  then have "distinct (take k (map bEndpointAddress (filter (needs_patch cfg) xs)))"
    by (rule distinct_take)
  then show ?thesis by (simp add: take_map)
qed

lemma other_addresses:
  assumes d: "distinct (map bEndpointAddress (filter is_int_ep xs))"
    and j: "j < length xs" and i: "is_int_ep (xs ! j)"
    and e: "epd \<in> set (filter is_int_ep (take j xs)) \<union> set (filter is_int_ep (drop (Suc j) xs))"
  shows "bEndpointAddress epd \<noteq> bEndpointAddress (xs ! j)"
proof -
  have "filter is_int_ep xs = filter is_int_ep (take j xs) @ xs ! j # filter is_int_ep (drop (Suc j) xs)"
    using filter_split_nth[OF j, of is_int_ep] i by simp
  with d have "distinct (map bEndpointAddress (filter is_int_ep (take j xs)) @
      bEndpointAddress (xs ! j) # map bEndpointAddress (filter is_int_ep (drop (Suc j) xs)))"
    by simp
  then have "bEndpointAddress (xs ! j) \<notin> set (map bEndpointAddress (filter is_int_ep (take j xs)))"
    and "bEndpointAddress (xs ! j) \<notin> set (map bEndpointAddress (filter is_int_ep (drop (Suc j) xs)))"
    by auto
  with e show ?thesis by (auto simp: image_iff)
qed

lemma patch_walk_from_zero:
  assumes "2 \<le> length infos"
    and "walk_endpoints False cfg eps (infos, 0, ch) = (eps', infos', n', ch')"
  shows "n' = min 2 (int (length (filter (needs_patch cfg) eps)))"
    and "length infos' = length infos"
    and "take (nat n') infos' = map entry_of (take 2 (filter (needs_patch cfg) eps))"
    and "ch' \<longleftrightarrow> ch \<or> filter (needs_patch cfg) eps \<noteq> []"
proof -
  have c: "n' = min 2 (int (length (filter (needs_patch cfg) eps))) \<and>
     length infos' = length infos \<and>
     take (nat n') infos' = map entry_of (take 2 (filter (needs_patch cfg) eps)) \<and>
     (ch' \<longleftrightarrow> ch \<or> filter (needs_patch cfg) eps \<noteq> [])"
    using patch_walk_store[OF _ _ assms, simplified] by blast
  from c show "n' = min 2 (int (length (filter (needs_patch cfg) eps)))" by blast
  from c show "length infos' = length infos" by blast
  from c show "take (nat n') infos' = map entry_of (take 2 (filter (needs_patch cfg) eps))" by blast
  from c show "ch' \<longleftrightarrow> ch \<or> filter (needs_patch cfg) eps \<noteq> []" by blast
qed

lemma patch_at:
  assumes len: "2 \<le> length infos" and j: "j < length eps"
    and np: "needs_patch cfg (eps ! j)"
    and d: "distinct (map bEndpointAddress (filter is_int_ep eps))"
    and cap: "length (filter (needs_patch cfg) (take j eps)) < 2"
    and w: "walk_endpoints False cfg eps (infos, 0, False) = (eps', infos', n', ch')"
  shows "eps' ! j = (eps ! j)\<lparr>bInterval := ucast cfg\<rparr>"
    and "find_restore_info (take (nat n') infos') (bEndpointAddress (eps ! j))
           = Some (ucast (bInterval (eps ! j)))"
    and "ch'"
proof -
  let ?P = "needs_patch cfg"
  let ?A = "filter ?P (take j eps)"
  obtain e1 infos1 n1 ch1 where pre: "walk_endpoints False cfg (take j eps) (infos, 0, False) = (e1, infos1, n1, ch1)"
    by (metis prod_cases4)
  have n1: "n1 = int (length ?A)"
    using patch_walk_from_zero(1)[OF len pre] cap by simp
  have "eps' ! j = fst (endpoint_step False cfg (eps ! j) (infos1, n1, ch1))"
    using walk_endpoints_nth[OF j, of False cfg "(infos, 0, False)"] by (simp add: w pre)
  then show "eps' ! j = (eps ! j)\<lparr>bInterval := ucast cfg\<rparr>"
    using np cap n1 by (simp add: patch_step)
  have F: "filter ?P eps = ?A @ eps ! j # filter ?P (drop (Suc j) eps)"
    using filter_split_nth[OF j, of ?P] np by simp
  have st: "take (nat n') infos' = map entry_of (take 2 (filter ?P eps))"
    and ch: "ch' \<longleftrightarrow> filter ?P eps \<noteq> []"
    using patch_walk_from_zero(3,4)[OF len w] by simp_all
  from F ch show "ch'" by simp
  have "2 - length ?A = Suc (1 - length ?A)" using cap by simp
  then have "eps ! j \<in> set (take 2 (filter ?P eps))"
    unfolding F by simp
  from find_entry_Some[OF distinct_needs_patch[OF d] this]
  show "find_restore_info (take (nat n') infos') (bEndpointAddress (eps ! j))
           = Some (ucast (bInterval (eps ! j)))"
    by (simp add: st)
qed

lemma patch_skip_at:
  assumes len: "2 \<le> length infos" and j: "j < length eps"
    and i: "is_int_ep (eps ! j)"
    and d: "distinct (map bEndpointAddress (filter is_int_ep eps))"
    and full: "2 \<le> length (filter (needs_patch cfg) (take j eps)) \<or> \<not> needs_patch cfg (eps ! j)"
    and w: "walk_endpoints False cfg eps (infos, 0, False) = (eps', infos', n', ch')"
  shows "eps' ! j = eps ! j"
    and "find_restore_info (take (nat n') infos') (bEndpointAddress (eps ! j)) = None"
proof -
  let ?P = "needs_patch cfg"
  let ?A = "filter ?P (take j eps)"
  let ?B = "filter ?P (drop (Suc j) eps)"
  obtain e1 infos1 n1 ch1 where pre: "walk_endpoints False cfg (take j eps) (infos, 0, False) = (e1, infos1, n1, ch1)"
    by (metis prod_cases4)
  have n1: "n1 = min 2 (int (length ?A))"
    using patch_walk_from_zero(1)[OF len pre] by simp
  have "eps' ! j = fst (endpoint_step False cfg (eps ! j) (infos1, n1, ch1))"
    using walk_endpoints_nth[OF j, of False cfg "(infos, 0, False)"] by (simp add: w pre)
  then show "eps' ! j = eps ! j"
    using full n1 by (auto simp: patch_step)
  have st: "take (nat n') infos' = map entry_of (take 2 (filter ?P eps))"
    by (rule patch_walk_from_zero(3)[OF len w])
  have sub: "set (take 2 (filter ?P eps)) \<subseteq> set ?A \<union> set ?B"
  proof (cases "?P (eps ! j)")
    case True
    with full have "2 \<le> length ?A" by simp
    then have "take 2 (filter ?P eps) = take 2 ?A"
      using filter_split_nth[OF j, of ?P] by simp
    then show ?thesis using set_take_subset[of 2 ?A] by auto
  next
    case False
    then have "filter ?P eps = ?A @ ?B" using filter_split_nth[OF j, of ?P] by simp
    then show ?thesis using set_take_subset[of 2 "?A @ ?B"] by auto
  qed
  have "\<forall>epd\<in>set (take 2 (filter ?P eps)). bEndpointAddress epd \<noteq> bEndpointAddress (eps ! j)"
  proof
    fix epd assume "epd \<in> set (take 2 (filter ?P eps))"
    with sub have "epd \<in> set ?A \<union> set ?B" by blast
    then have "epd \<in> set (filter is_int_ep (take j eps)) \<union> set (filter is_int_ep (drop (Suc j) eps))"
      by (auto simp: needs_patch_def)
    from other_addresses[OF d j i this] show "bEndpointAddress epd \<noteq> bEndpointAddress (eps ! j)" .
  qed
  from find_entry_None[OF this] show "find_restore_info (take (nat n') infos') (bEndpointAddress (eps ! j)) = None"
    by (simp add: st)
qed

subsection \<open>Unfolding the engine on the examples\<close>

lemmas engine_defs = patch_or_restore_dualsense_endpoints_def walk_dualsense_endpoints_def
  reset_device_def walk_altsetting_def endpoint_step_def write_interval_def is_int_ep_def
  usb_endpoint_is_int_in_def usb_endpoint_is_int_out_def MAX_PATCHED_EPS_def USB_CLASS_HID_def
  hid_endpoints_def

lemmas example_defs = example_in_def example_out_def example_third_def example_device_def
  example_managed_def example_unmanaged_def example_two_def example_three_def example_mixed_def
  example_crowded_def
  example_events_def

subsection \<open>Frame properties of the engine\<close>

lemma walk_dualsense_cases:
  obtains (absent) "walk_dualsense_endpoints restore s = (False, s)" "hid_endpoints s = []"
  | (present) dev config where "dualsense_device s = Some dev" "actconfig (memory s dev) = Some config"
proof (cases "dualsense_device s")
  case None
  then show ?thesis by (intro absent) (simp_all add: walk_dualsense_endpoints_def hid_endpoints_def)
next
  case (Some dev)
  show ?thesis
  proof (cases "actconfig (memory s dev)")
    case None
    with Some show ?thesis by (intro absent) (simp_all add: walk_dualsense_endpoints_def hid_endpoints_def)
  next
    case (Some config)
    with \<open>dualsense_device s = Some dev\<close> show ?thesis by (rule present)
  qed
qed

lemma walk_dualsense_frame:
  "dualsense_device (snd (walk_dualsense_endpoints restore s)) = dualsense_device s"
  "configured_interval (snd (walk_dualsense_endpoints restore s)) = configured_interval s"
  "calls (snd (walk_dualsense_endpoints restore s)) = calls s"
  "idVendor (memory (snd (walk_dualsense_endpoints restore s)) d) = idVendor (memory s d)"
  "idProduct (memory (snd (walk_dualsense_endpoints restore s)) d) = idProduct (memory s d)"
proof -
  obtain ch s' where w: "walk_dualsense_endpoints restore s = (ch, s')" by (cases "walk_dualsense_endpoints restore s")
  have "dualsense_device s' = dualsense_device s \<and> configured_interval s' = configured_interval s
    \<and> calls s' = calls s \<and> idVendor (memory s' d) = idVendor (memory s d)
    \<and> idProduct (memory s' d) = idProduct (memory s d)"
  proof (cases restore s rule: walk_dualsense_cases)
    case absent
    with w show ?thesis by simp
  next
    case (present dev config)
    from walk_dualsense_char(2,3,4,7,8)[OF present w] present(1) show ?thesis by simp
  qed
  then show "dualsense_device (snd (walk_dualsense_endpoints restore s)) = dualsense_device s"
  "configured_interval (snd (walk_dualsense_endpoints restore s)) = configured_interval s"
  "calls (snd (walk_dualsense_endpoints restore s)) = calls s"
  "idVendor (memory (snd (walk_dualsense_endpoints restore s)) d) = idVendor (memory s d)"
  "idProduct (memory (snd (walk_dualsense_endpoints restore s)) d) = idProduct (memory s d)"
    by (simp_all add: w)
qed

lemma engine_fields:
  "restore_infos (patch_or_restore_dualsense_endpoints r rl rr s)
     = restore_infos (snd (walk_dualsense_endpoints r s))"
  "num_actually_patched_eps (patch_or_restore_dualsense_endpoints r rl rr s)
     = num_actually_patched_eps (snd (walk_dualsense_endpoints r s))"
  "memory (patch_or_restore_dualsense_endpoints r rl rr s)
     = memory (snd (walk_dualsense_endpoints r s))"
  "dualsense_device (patch_or_restore_dualsense_endpoints r rl rr s) = dualsense_device s"
  "configured_interval (patch_or_restore_dualsense_endpoints r rl rr s) = configured_interval s"
  "hid_endpoints (patch_or_restore_dualsense_endpoints r rl rr s)
     = hid_endpoints (snd (walk_dualsense_endpoints r s))"
  using walk_dualsense_frame(1,2)[of r s]
  by (simp_all add: patch_or_restore_dualsense_endpoints_def reset_device_def case_prod_beta
      hid_endpoints_def split: option.splits)

lemma engine_calls:
  "calls (patch_or_restore_dualsense_endpoints r rl rr s) =
     (if fst (walk_dualsense_endpoints r s)
      then (case dualsense_device s of None \<Rightarrow> calls s
            | Some dev \<Rightarrow> calls s @ [Usb_lock_device_for_reset dev, Usb_reset_device dev]
                 @ (if rl = 0 then [Usb_unlock_device dev] else []))
      else calls s)"
  using walk_dualsense_frame(1,3)[of r s]
  by (simp add: patch_or_restore_dualsense_endpoints_def reset_device_def case_prod_beta
      split: option.splits)

lemma restore_walk_dualsense:
  "restore_infos (snd (walk_dualsense_endpoints True s)) = restore_infos s \<and>
   num_actually_patched_eps (snd (walk_dualsense_endpoints True s)) = num_actually_patched_eps s"
proof (cases True s rule: walk_dualsense_cases)
  case absent
  then show ?thesis by simp
next
  case (present dev config)
  obtain ch s' where w: "walk_dualsense_endpoints True s = (ch, s')" by (cases "walk_dualsense_endpoints True s")
  from walk_dualsense_char(1)[OF present w] show ?thesis by (simp add: restore_walk w)
qed

subsection \<open>The rate parameter\<close>

lemma clamp_value:
  "configured_interval (clamp_configured_interval s) =
     (if configured_interval s = 0 then 1 else if configured_interval s > 255 then 255
      else configured_interval s)"
  by (simp add: clamp_configured_interval_def)

lemma check_existing_configured:
  "configured_interval (snd (check_existing_device_cb d rl rr s)) = configured_interval s"
  by (simp add: check_existing_device_cb_def engine_fields)

lemma for_each_configured:
  "configured_interval (usb_for_each_dev (\<lambda>d. check_existing_device_cb d rl rr) present s)
     = configured_interval s"
proof (induction present arbitrary: s)
  case Nil
  then show ?case by simp
next
  case (Cons d ds)
  show ?case using Cons.IH[of "snd (check_existing_device_cb d rl rr s)"]
      check_existing_configured[of d rl rr s]
    by (simp add: case_prod_beta)
qed

lemma on_interval_changed_value:
  "configured_interval (snd (on_interval_changed (Inr v) rl rr s)) =
     (if v = 0 then 1 else if v > 255 then 255 else v)"
  by (simp add: on_interval_changed_def param_set_ushort_def Let_def engine_fields clamp_value)

lemma ds_oc_init_value:
  "configured_interval (snd (ds_oc_init present rl rr s)) =
     (if configured_interval s = 0 then 1 else if configured_interval s > 255 then 255
      else configured_interval s)"
  by (simp add: ds_oc_init_def Let_def for_each_configured clamp_value)

subsection \<open>Patch and restore on the module state\<close>

lemma patch_walk_nochange:
  "\<forall>epd\<in>set eps. \<not> needs_patch cfg epd \<Longrightarrow>
   fst (walk_endpoints False cfg eps (infos, n, ch)) = eps \<and>
   snd (snd (snd (walk_endpoints False cfg eps (infos, n, ch)))) = ch"
  by (induction eps arbitrary: infos n ch) (simp_all add: patch_step case_prod_beta)

lemma engine_restore_store:
  "restore_infos (patch_or_restore_dualsense_endpoints True rl rr s) = restore_infos s \<and>
   num_actually_patched_eps (patch_or_restore_dualsense_endpoints True rl rr s)
     = num_actually_patched_eps s"
  using restore_walk_dualsense[of s] by (simp add: engine_fields)

lemma engine_patch_walk:
  assumes "hid_endpoints s \<noteq> []"
  shows "walk_endpoints False (configured_interval s) (hid_endpoints s) (restore_infos s, 0, False)
    = (hid_endpoints (patch_or_restore_dualsense_endpoints False rl rr s),
       restore_infos (patch_or_restore_dualsense_endpoints False rl rr s),
       num_actually_patched_eps (patch_or_restore_dualsense_endpoints False rl rr s),
       fst (walk_dualsense_endpoints False s))"
proof (cases False s rule: walk_dualsense_cases)
  case absent
  with assms show ?thesis by simp
next
  case (present dev config)
  obtain ch s' where w: "walk_dualsense_endpoints False s = (ch, s')"
    by (cases "walk_dualsense_endpoints False s")
  from walk_dualsense_char(1)[OF present w] show ?thesis
    by (simp add: engine_fields w)
qed

lemma engine_restore_endpoints:
  "hid_endpoints (patch_or_restore_dualsense_endpoints True rl rr s)
     = map (restore_one (restore_infos s) (num_actually_patched_eps s)) (hid_endpoints s)"
proof (cases True s rule: walk_dualsense_cases)
  case absent
  then show ?thesis by (simp add: engine_fields)
next
  case (present dev config)
  obtain ch s' where w: "walk_dualsense_endpoints True s = (ch, s')"
    by (cases "walk_dualsense_endpoints True s")
  from walk_dualsense_char(1)[OF present w]
  have "hid_endpoints s' = map (restore_one (restore_infos s) (num_actually_patched_eps s)) (hid_endpoints s)"
    by (auto simp: restore_walk)
  then show ?thesis by (simp add: engine_fields w)
qed

lemma restore_one_unchanged: "\<not> restore_changes infos n epd \<Longrightarrow> restore_one infos n epd = epd"
proof -
  have "epd\<lparr>bInterval := ucast (ucast (bInterval epd) :: 16 word)\<rparr> = epd"
    by (simp add: ucast_down_up)
  then show "\<not> restore_changes infos n epd \<Longrightarrow> restore_one infos n epd = epd"
    by (auto simp: restore_changes_def restore_one_def split: option.splits)
qed

lemma restore_one_settled:
  assumes "\<And>a v. find_restore_info (take (nat n) infos) a = Some v \<Longrightarrow> ucast (ucast v :: 8 word) = v"
  shows "\<not> restore_changes infos n (restore_one infos n epd)"
  using assms
  by (auto simp: restore_changes_def restore_one_def is_int_ep_bInterval split: option.splits)

lemma engine_restore_noop:
  assumes "\<forall>epd\<in>set (hid_endpoints s).
             \<not> restore_changes (restore_infos s) (num_actually_patched_eps s) epd"
  shows "patch_or_restore_dualsense_endpoints True rl rr s = s"
proof (cases True s rule: walk_dualsense_cases)
  case absent
  then show ?thesis by (simp add: patch_or_restore_dualsense_endpoints_def)
next
  case (present dev config)
  obtain ch s' where w: "walk_dualsense_endpoints True s = (ch, s')"
    by (cases "walk_dualsense_endpoints True s")
  from assms have m: "map (restore_one (restore_infos s) (num_actually_patched_eps s)) (hid_endpoints s)
      = hid_endpoints s"
    by (simp add: map_idI restore_one_unchanged)
  from walk_dualsense_char(1)[OF present w] assms m
  have f: "hid_endpoints s' = hid_endpoints s" "restore_infos s' = restore_infos s"
    "num_actually_patched_eps s' = num_actually_patched_eps s" "\<not> ch"
    by (auto simp: restore_walk)
  from walk_dualsense_char(5)[OF present w f(1)] have "memory s' = memory s" .
  with walk_dualsense_char(9)[OF present w] f have "s' = s" by simp
  with w f(4) show ?thesis by (simp add: patch_or_restore_dualsense_endpoints_def)
qed

lemma engine_patch_length:
  "length (hid_endpoints (patch_or_restore_dualsense_endpoints False rl rr s)) = length (hid_endpoints s)"
proof (cases "hid_endpoints s = []")
  case True
  show ?thesis
  proof (cases False s rule: walk_dualsense_cases)
    case absent
    then show ?thesis by (simp add: engine_fields)
  next
    case (present dev config)
    obtain ch s' where w: "walk_dualsense_endpoints False s = (ch, s')"
      by (cases "walk_dualsense_endpoints False s")
    from walk_dualsense_char(1)[OF present w] True show ?thesis by (simp add: engine_fields w)
  qed
next
  case False
  from engine_patch_walk[OF False, of rl rr]
    walk_endpoints_length[of False "configured_interval s" "hid_endpoints s" "(restore_infos s, 0, False)"]
  show ?thesis by simp
qed

text \<open>A walk keeps the address and the type of every endpoint.\<close>

lemma endpoint_step_layout:
  "bEndpointAddress (fst (endpoint_step r cfg epd st)) = bEndpointAddress epd \<and>
   is_int_ep (fst (endpoint_step r cfg epd st)) = is_int_ep epd"
  by (cases st)
     (auto simp: endpoint_step_def write_interval_def is_int_ep_bInterval split: option.splits)

lemma walk_endpoints_layout:
  "list_all2 (\<lambda>epd epd'. bEndpointAddress epd' = bEndpointAddress epd \<and> is_int_ep epd' = is_int_ep epd)
     eps (fst (walk_endpoints r cfg eps st))"
  by (induction eps arbitrary: st) (simp_all add: case_prod_beta endpoint_step_layout)

lemma layout_filter:
  "list_all2 (\<lambda>epd epd'. bEndpointAddress epd' = bEndpointAddress epd \<and> is_int_ep epd' = is_int_ep epd)
     xs ys \<Longrightarrow>
   map bEndpointAddress (filter is_int_ep ys) = map bEndpointAddress (filter is_int_ep xs)"
  by (induction xs ys rule: list_all2_induct) auto

lemma engine_patch_layout:
  "list_all2 (\<lambda>epd epd'. bEndpointAddress epd' = bEndpointAddress epd \<and> is_int_ep epd' = is_int_ep epd)
     (hid_endpoints s) (hid_endpoints (patch_or_restore_dualsense_endpoints False rl rr s))"
proof (cases "hid_endpoints s = []")
  case True
  with engine_patch_length[of rl rr s] show ?thesis by simp
next
  case False
  from engine_patch_walk[OF False, of rl rr]
    walk_endpoints_layout[of "hid_endpoints s" False "configured_interval s" "(restore_infos s, 0, False)"]
  show ?thesis by simp
qed

lemma needs_patch_count_le:
  "length (filter (needs_patch cfg) xs) \<le> length (filter is_int_ep xs)"
  unfolding needs_patch_filter by (rule length_filter_le)

subsection \<open>References held\<close>

lemma held_after_append:
  "held_after held (cs @ cs') = held_after (held_after held cs) cs'"
  by (induction held cs rule: held_after.induct) simp_all

lemma acquired_snoc_get: "acquired (cs @ [Usb_get_dev d]) = d # acquired cs"
  by (simp add: acquired_def held_after_append)

lemma acquired_snoc_put: "acquired (cs @ [Usb_put_dev d]) = remove1 d (acquired cs)"
  by (simp add: acquired_def held_after_append)

lemma engine_acquired:
  "acquired (calls (patch_or_restore_dualsense_endpoints r rl rr s)) = acquired (calls s)"
  by (simp add: engine_calls acquired_def held_after_append split: option.splits)

lemma on_usb_notify_one_reference:
  "one_reference s \<Longrightarrow> one_reference (snd (on_usb_notify action device rl rr s))"
  by (auto simp: one_reference_def on_usb_notify_def engine_acquired engine_fields
      acquired_snoc_get acquired_snoc_put split: option.splits)

lemma check_existing_one_reference:
  "one_reference s \<Longrightarrow> one_reference (snd (check_existing_device_cb device rl rr s))"
  by (auto simp: one_reference_def check_existing_device_cb_def engine_acquired engine_fields
      acquired_snoc_get split: option.splits)

lemma clamp_frame:
  "dualsense_device (clamp_configured_interval s) = dualsense_device s"
  "calls (clamp_configured_interval s) = calls s"
  "memory (clamp_configured_interval s) = memory s"
  by (simp_all add: clamp_configured_interval_def)

lemma on_interval_changed_one_reference:
  "one_reference s \<Longrightarrow> one_reference (snd (on_interval_changed parsed rl rr s))"
  by (cases parsed)
     (auto simp: one_reference_def on_interval_changed_def param_set_ushort_def Let_def
        engine_acquired engine_fields clamp_frame split: option.splits)

lemma deliver_one_reference: "one_reference s \<Longrightarrow> one_reference (deliver ev s)"
  by (cases ev)
     (simp_all add: on_usb_notify_one_reference check_existing_one_reference
        on_interval_changed_one_reference)

lemma run_one_reference: "one_reference s \<Longrightarrow> one_reference (run evs s)"
  by (induction evs arbitrary: s) (simp_all add: deliver_one_reference)

text \<open>
  The device in the slot carries the DualSense ids after every event: it is acquired
  under that test, and the engine writes intervals only.
\<close>

lemma deliver_managed_is_dualsense:
  "managed_is_dualsense s \<Longrightarrow> managed_is_dualsense (deliver ev s)"
proof (cases ev)
  case (Hotplug action device rl rr)
  assume "managed_is_dualsense s"
  with Hotplug show ?thesis
    by (auto simp: managed_is_dualsense_def on_usb_notify_def engine_fields walk_dualsense_frame
        split: option.splits)
next
  case (Enumerate device rl rr)
  assume "managed_is_dualsense s"
  with Enumerate show ?thesis
    by (auto simp: managed_is_dualsense_def check_existing_device_cb_def engine_fields walk_dualsense_frame
        split: option.splits)
next
  case (Rate_change parsed rl rr)
  assume "managed_is_dualsense s"
  with Rate_change show ?thesis
    by (cases parsed)
       (auto simp: managed_is_dualsense_def on_interval_changed_def param_set_ushort_def Let_def
          engine_fields walk_dualsense_frame clamp_frame split: option.splits)
qed

lemma run_managed_is_dualsense:
  "managed_is_dualsense s \<Longrightarrow> managed_is_dualsense (run evs s)"
  by (induction evs arbitrary: s) (simp_all add: deliver_managed_is_dualsense)

lemmas tracker_defs = on_usb_notify_def check_existing_device_cb_def on_interval_changed_def
  USB_DEVICE_ADD_def USB_DEVICE_REMOVE_def NOTIFY_OK_def DS_VID_def DS_PID_def
  one_reference_def acquired_def

section \<open>The claims\<close>

text \<open>
  C1 (as amended): an interrupt endpoint of the HID interface with interval V, visited
  by a patch walk with target T, V different from T, while the table has room (fewer
  than two earlier endpoints of the walk needed patching), endpoint addresses being
  unique. Patch sets its interval to T (narrowed to the 8-bit field, which leaves a T
  of up to 255 as it is) and records V under its address. Restore
  afterwards puts the descriptor back as it was and leaves the table and the counter as
  they are: the record is kept, not cleared. A second Restore changes nothing at all,
  because every recorded interval is already in place.
\<close>

theorem patch_restore_round_trip:
  assumes len: "length (restore_infos s) = 2"
    and j: "j < length (hid_endpoints s)"
    and int: "is_int_ep (hid_endpoints s ! j)"
    and diff: "ucast (bInterval (hid_endpoints s ! j)) \<noteq> configured_interval s"
    and dist: "distinct (map bEndpointAddress (filter is_int_ep (hid_endpoints s)))"
    and cap: "length (filter (needs_patch (configured_interval s)) (take j (hid_endpoints s))) < 2"
  shows
    "bInterval (hid_endpoints (patch_or_restore_dualsense_endpoints False rl1 rr1 s) ! j)
       = ucast (configured_interval s) \<and>
     find_restore_info
        (take (nat (num_actually_patched_eps (patch_or_restore_dualsense_endpoints False rl1 rr1 s)))
              (restore_infos (patch_or_restore_dualsense_endpoints False rl1 rr1 s)))
        (bEndpointAddress (hid_endpoints s ! j))
       = Some (ucast (bInterval (hid_endpoints s ! j))) \<and>
     hid_endpoints (patch_or_restore_dualsense_endpoints True rl2 rr2
        (patch_or_restore_dualsense_endpoints False rl1 rr1 s)) ! j = hid_endpoints s ! j \<and>
     restore_infos (patch_or_restore_dualsense_endpoints True rl2 rr2
        (patch_or_restore_dualsense_endpoints False rl1 rr1 s))
       = restore_infos (patch_or_restore_dualsense_endpoints False rl1 rr1 s) \<and>
     num_actually_patched_eps (patch_or_restore_dualsense_endpoints True rl2 rr2
        (patch_or_restore_dualsense_endpoints False rl1 rr1 s))
       = num_actually_patched_eps (patch_or_restore_dualsense_endpoints False rl1 rr1 s) \<and>
     patch_or_restore_dualsense_endpoints True rl3 rr3
        (patch_or_restore_dualsense_endpoints True rl2 rr2
           (patch_or_restore_dualsense_endpoints False rl1 rr1 s))
       = patch_or_restore_dualsense_endpoints True rl2 rr2
           (patch_or_restore_dualsense_endpoints False rl1 rr1 s)"
proof -
  let ?cfg = "configured_interval s"
  let ?eps = "hid_endpoints s"
  let ?s1 = "patch_or_restore_dualsense_endpoints False rl1 rr1 s"
  let ?s2 = "patch_or_restore_dualsense_endpoints True rl2 rr2 ?s1"
  let ?infos1 = "restore_infos ?s1"
  let ?n1 = "num_actually_patched_eps ?s1"
  from j have ne: "?eps \<noteq> []" by auto
  note w = engine_patch_walk[OF ne, of rl1 rr1]
  from len have len2: "2 \<le> length (restore_infos s)" by simp
  from int diff have np: "needs_patch ?cfg (?eps ! j)" by (simp add: needs_patch_def)
  note pa = patch_at[OF len2 j np dist cap w]
  have j1: "j < length (hid_endpoints ?s1)" using j by (simp add: engine_patch_length)
  have a: "bInterval (hid_endpoints ?s1 ! j) = ucast ?cfg" using pa(1) by simp
  have b: "find_restore_info (take (nat ?n1) ?infos1) (bEndpointAddress (?eps ! j))
       = Some (ucast (bInterval (?eps ! j)))" by (rule pa(2))
  have "hid_endpoints ?s2 ! j = restore_one ?infos1 ?n1 (hid_endpoints ?s1 ! j)"
    using j1 by (simp add: engine_restore_endpoints)
  also have "\<dots> = (?eps ! j)\<lparr>bInterval := ucast (ucast (bInterval (?eps ! j)) :: 16 word)\<rparr>"
    using int b by (simp add: pa(1) restore_one_def is_int_ep_bInterval)
  also have "\<dots> = ?eps ! j" by (simp add: ucast_down_up)
  finally have c: "hid_endpoints ?s2 ! j = ?eps ! j" .
  note st = engine_restore_store[of rl2 rr2 ?s1]
  have bounded: "ucast (ucast v :: 8 word) = v"
    if "find_restore_info (take (nat ?n1) ?infos1) a = Some v" for a v
    using that patch_walk_from_zero(3)[OF len2 w] find_entry_bounded by simp
  have "\<forall>epd\<in>set (hid_endpoints ?s2).
          \<not> restore_changes (restore_infos ?s2) (num_actually_patched_eps ?s2) epd"
    using restore_one_settled[of ?n1 ?infos1] bounded st
    by (auto simp: engine_restore_endpoints)
  from engine_restore_noop[OF this] have d: "patch_or_restore_dualsense_endpoints True rl3 rr3 ?s2 = ?s2" .
  from a b c st d show ?thesis by simp
qed


theorem patch_restore_round_trip_witness:
  "length (restore_infos example_two) = 2 \<and>
   hid_endpoints example_two = [example_in, example_out] \<and>
   is_int_ep example_out \<and> bInterval example_out = 6 \<and> configured_interval example_two = 1 \<and>
   bInterval (hid_endpoints (patch_or_restore_dualsense_endpoints False 0 0 example_two) ! 1) = 1 \<and>
   find_restore_info
     (take (nat (num_actually_patched_eps (patch_or_restore_dualsense_endpoints False 0 0 example_two)))
           (restore_infos (patch_or_restore_dualsense_endpoints False 0 0 example_two))) 0x03 = Some 6 \<and>
   hid_endpoints (patch_or_restore_dualsense_endpoints True 0 0 (patch_or_restore_dualsense_endpoints False 0 0 example_two)) ! 1 = example_out \<and>
   num_actually_patched_eps (patch_or_restore_dualsense_endpoints True 0 0 (patch_or_restore_dualsense_endpoints False 0 0 example_two)) = 2 \<and>
   patch_or_restore_dualsense_endpoints True 0 0 (patch_or_restore_dualsense_endpoints True 0 0 (patch_or_restore_dualsense_endpoints False 0 0 example_two))
     = patch_or_restore_dualsense_endpoints True 0 0 (patch_or_restore_dualsense_endpoints False 0 0 example_two)"
proof -
  have e: "hid_endpoints example_two = [example_in, example_out]"
    "configured_interval example_two = 1"
    by (simp_all add: engine_defs example_defs)
  have i: "is_int_ep example_out" "is_int_ep example_in" "bInterval example_out = 6"
    "bEndpointAddress example_out = 0x03"
    by (simp_all add: engine_defs example_defs)
  have h1: "length (restore_infos example_two) = 2" by (simp add: example_defs)
  have h2: "1 < length (hid_endpoints example_two)" by (simp add: e)
  have h3: "is_int_ep (hid_endpoints example_two ! 1)" by (simp add: e i)
  have h4: "ucast (bInterval (hid_endpoints example_two ! 1)) \<noteq> configured_interval example_two"
    by (simp add: e i)
  have h5: "distinct (map bEndpointAddress (filter is_int_ep (hid_endpoints example_two)))"
    by (simp add: e i) (simp add: example_defs)
  have h6: "length (filter (needs_patch (configured_interval example_two))
              (take 1 (hid_endpoints example_two))) < 2"
    by (simp add: e)
  have n: "num_actually_patched_eps (patch_or_restore_dualsense_endpoints False 0 0 example_two) = 2"
    by (simp add: engine_defs example_defs)
  from patch_restore_round_trip[OF h1 h2 h3 h4 h5 h6, of 0 0 0 0 0 0] h1 e i n
  show ?thesis by simp
qed

text \<open>
  The claim as stated fails on a HID interface with three interrupt endpoints, none at
  the target. Patch leaves the third endpoint at its interval 8, and after Patch and
  Restore the table still holds the record of the first endpoint: the count is 2 and
  the lookup of address 0x84 still answers 6.
\<close>

theorem restore_keeps_record_counterexample:
  "is_int_ep (hid_endpoints example_three ! 2) \<and>
   bInterval (hid_endpoints example_three ! 2) = 8 \<and>
   configured_interval example_three = 1 \<and>
   bInterval (hid_endpoints (patch_or_restore_dualsense_endpoints False 0 0 example_three) ! 2) = 8 \<and>
   bInterval (hid_endpoints (patch_or_restore_dualsense_endpoints False 0 0 example_three) ! 0) = 1 \<and>
   bInterval (hid_endpoints (patch_or_restore_dualsense_endpoints True 0 0 (patch_or_restore_dualsense_endpoints False 0 0 example_three)) ! 0) = 6 \<and>
   num_actually_patched_eps (patch_or_restore_dualsense_endpoints True 0 0 (patch_or_restore_dualsense_endpoints False 0 0 example_three)) = 2 \<and>
   find_restore_info
     (take (nat (num_actually_patched_eps (patch_or_restore_dualsense_endpoints True 0 0 (patch_or_restore_dualsense_endpoints False 0 0 example_three))))
           (restore_infos (patch_or_restore_dualsense_endpoints True 0 0 (patch_or_restore_dualsense_endpoints False 0 0 example_three)))) 0x84 = Some 6"
  by (simp add: engine_defs example_defs)

text \<open>
  C2 (as amended): an interrupt endpoint of interval V that fewer than two interrupt
  endpoints precede in the HID interface, so that both patch walks reach it with room
  in the table. It is patched with target T1 (V different from T1, T1 at most 255),
  the target is then set to T2 different from T1 and the engine patches again, with no
  restore in between. The table then holds T1 as the original of that endpoint, and a
  restore sets its interval to T1, not to V. Endpoint addresses are unique.
\<close>

theorem second_patch_rebaselines:
  assumes len: "length (restore_infos s) = 2"
    and j: "j < length (hid_endpoints s)"
    and int: "is_int_ep (hid_endpoints s ! j)"
    and cfg: "configured_interval s = T1"
    and T1: "T1 \<le> 255"
    and VT1: "ucast (bInterval (hid_endpoints s ! j)) \<noteq> T1"
    and T12: "T1 \<noteq> T2"
    and dist: "distinct (map bEndpointAddress (filter is_int_ep (hid_endpoints s)))"
    and pre: "length (filter is_int_ep (take j (hid_endpoints s))) < 2"
  shows
    "find_restore_info
        (take (nat (num_actually_patched_eps
                 (patch_or_restore_dualsense_endpoints False rl2 rr2
                    ((patch_or_restore_dualsense_endpoints False rl1 rr1 s)\<lparr>configured_interval := T2\<rparr>))))
              (restore_infos
                 (patch_or_restore_dualsense_endpoints False rl2 rr2
                    ((patch_or_restore_dualsense_endpoints False rl1 rr1 s)\<lparr>configured_interval := T2\<rparr>))))
        (bEndpointAddress (hid_endpoints s ! j)) = Some T1 \<and>
     ucast (bInterval (hid_endpoints
        (patch_or_restore_dualsense_endpoints True rl3 rr3
           (patch_or_restore_dualsense_endpoints False rl2 rr2
              ((patch_or_restore_dualsense_endpoints False rl1 rr1 s)\<lparr>configured_interval := T2\<rparr>))) ! j))
       = T1 \<and>
     bInterval (hid_endpoints
        (patch_or_restore_dualsense_endpoints True rl3 rr3
           (patch_or_restore_dualsense_endpoints False rl2 rr2
              ((patch_or_restore_dualsense_endpoints False rl1 rr1 s)\<lparr>configured_interval := T2\<rparr>))) ! j)
       \<noteq> bInterval (hid_endpoints s ! j)"
proof -
  let ?eps = "hid_endpoints s"
  let ?s1 = "patch_or_restore_dualsense_endpoints False rl1 rr1 s"
  let ?s1' = "?s1\<lparr>configured_interval := T2\<rparr>"
  let ?s2 = "patch_or_restore_dualsense_endpoints False rl2 rr2 ?s1'"
  let ?s3 = "patch_or_restore_dualsense_endpoints True rl3 rr3 ?s2"
  let ?eps1 = "hid_endpoints ?s1"
  from j have ne: "?eps \<noteq> []" by auto
  from len have len2: "2 \<le> length (restore_infos s)" by simp
  note w1 = engine_patch_walk[OF ne, of rl1 rr1]
  from int VT1 cfg have np1: "needs_patch (configured_interval s) (?eps ! j)"
    by (simp add: needs_patch_def)
  have cap1: "length (filter (needs_patch (configured_interval s)) (take j ?eps)) < 2"
    using needs_patch_count_le[of "configured_interval s" "take j ?eps"] pre by simp
  note pa1 = patch_at[OF len2 j np1 dist cap1 w1]
  have e1: "?eps1 ! j = (?eps ! j)\<lparr>bInterval := ucast T1\<rparr>" using pa1(1) cfg by simp
  have h1: "hid_endpoints ?s1' = ?eps1" by (simp add: hid_endpoints_def split: option.splits)
  have j1: "j < length (hid_endpoints ?s1')" using j by (simp add: h1 engine_patch_length)
  then have ne1: "hid_endpoints ?s1' \<noteq> []" by auto
  have len1: "2 \<le> length (restore_infos ?s1')"
    using patch_walk_from_zero(2)[OF len2 w1] len by simp
  have rt: "ucast (ucast T1 :: 8 word) = T1" by (rule ucast_up_down[OF T1])
  have np2: "needs_patch (configured_interval ?s1') (hid_endpoints ?s1' ! j)"
    using int T12 rt by (simp add: h1 e1 needs_patch_def is_int_ep_bInterval)
  note lay = engine_patch_layout[of s rl1 rr1]
  have dist1: "distinct (map bEndpointAddress (filter is_int_ep (hid_endpoints ?s1')))"
    using dist layout_filter[OF lay] by (simp add: h1)
  have "list_all2 (\<lambda>epd epd'. bEndpointAddress epd' = bEndpointAddress epd \<and> is_int_ep epd' = is_int_ep epd)
     (take j ?eps) (take j ?eps1)" using lay by (rule list_all2_takeI)
  from layout_filter[OF this] have "length (filter is_int_ep (take j ?eps1)) = length (filter is_int_ep (take j ?eps))"
    by (metis length_map)
  then have cap2: "length (filter (needs_patch (configured_interval ?s1')) (take j (hid_endpoints ?s1'))) < 2"
    using needs_patch_count_le[of "configured_interval ?s1'" "take j ?eps1"] pre by (simp add: h1)
  note w2 = engine_patch_walk[OF ne1, of rl2 rr2]
  note pa2 = patch_at[OF len1 j1 np2 dist1 cap2 w2]
  have a: "find_restore_info (take (nat (num_actually_patched_eps ?s2)) (restore_infos ?s2))
       (bEndpointAddress (?eps ! j)) = Some T1"
    using pa2(2) rt by (simp add: h1 e1)
  have j2: "j < length (hid_endpoints ?s2)" using j1 by (simp add: engine_patch_length)
  have "hid_endpoints ?s3 ! j
      = restore_one (restore_infos ?s2) (num_actually_patched_eps ?s2) (hid_endpoints ?s2 ! j)"
    using j2 by (simp add: engine_restore_endpoints)
  also have "\<dots> = (?eps ! j)\<lparr>bInterval := ucast T1\<rparr>"
    using a int by (simp add: pa2(1) h1 e1 restore_one_def is_int_ep_bInterval)
  finally have b: "ucast (bInterval (hid_endpoints ?s3 ! j)) = T1" using rt by simp
  with VT1 have "bInterval (hid_endpoints ?s3 ! j) \<noteq> bInterval (hid_endpoints s ! j)" by auto
  with a b show ?thesis by simp
qed


theorem second_patch_rebaselines_witness:
  "length (restore_infos example_two) = 2 \<and>
   hid_endpoints example_two = [example_in, example_out] \<and>
   is_int_ep example_in \<and> is_int_ep example_out \<and> bInterval example_out = 6 \<and>
   configured_interval example_two = 1 \<and>
   find_restore_info
     (take (nat (num_actually_patched_eps
              (patch_or_restore_dualsense_endpoints False 0 0 ((patch_or_restore_dualsense_endpoints False 0 0 example_two)\<lparr>configured_interval := 2\<rparr>))))
           (restore_infos
              (patch_or_restore_dualsense_endpoints False 0 0 ((patch_or_restore_dualsense_endpoints False 0 0 example_two)\<lparr>configured_interval := 2\<rparr>))))
     0x03 = Some 1 \<and>
   bInterval (hid_endpoints
     (patch_or_restore_dualsense_endpoints True 0 0
        (patch_or_restore_dualsense_endpoints False 0 0 ((patch_or_restore_dualsense_endpoints False 0 0 example_two)\<lparr>configured_interval := 2\<rparr>))) ! 1) = 1"
proof -
  have e: "hid_endpoints example_two = [example_in, example_out]"
    "configured_interval example_two = 1"
    by (simp_all add: engine_defs example_defs)
  have i: "is_int_ep example_out" "is_int_ep example_in" "bInterval example_out = 6"
    "bEndpointAddress example_out = 0x03"
    by (simp_all add: engine_defs example_defs)
  have h1: "length (restore_infos example_two) = 2" by (simp add: example_defs)
  have h2: "1 < length (hid_endpoints example_two)" by (simp add: e)
  have h3: "is_int_ep (hid_endpoints example_two ! 1)" by (simp add: e i)
  have h4: "(1 :: 16 word) \<le> 255" by simp
  have h5: "ucast (bInterval (hid_endpoints example_two ! 1)) \<noteq> (1 :: 16 word)"
    by (simp add: e i)
  have h6: "(1 :: 16 word) \<noteq> 2" by simp
  have h7: "distinct (map bEndpointAddress (filter is_int_ep (hid_endpoints example_two)))"
    by (simp add: e i) (simp add: example_defs)
  have h8: "length (filter is_int_ep (take 1 (hid_endpoints example_two))) < 2"
    by (simp add: e i)
  have v: "bInterval (hid_endpoints
     (patch_or_restore_dualsense_endpoints True 0 0
        (patch_or_restore_dualsense_endpoints False 0 0 ((patch_or_restore_dualsense_endpoints False 0 0 example_two)\<lparr>configured_interval := 2\<rparr>))) ! 1) = 1"
    by (simp add: engine_defs example_defs)
  from second_patch_rebaselines[OF h1 h2 h3 e(2) h4 h5 h6 h7 h8, of 0 0 0 0 0 0] h1 e i v
  show ?thesis by simp
qed

text \<open>
  The claim as stated fails on a HID interface with three interrupt endpoints at
  intervals 1, 6 and 8, for the third endpoint with T1 = 1 and T2 = 2. The first patch
  sets the third endpoint to 1 and records its 8. The second patch finds the first two
  endpoints at 1, patches them to 2 and fills the table with them, so the third
  endpoint is skipped: it stays at 1 and the table holds no entry under its address,
  neither T1 nor V.
\<close>

theorem second_patch_crowds_out_counterexample:
  "is_int_ep (hid_endpoints example_crowded ! 2) \<and>
   bInterval (hid_endpoints example_crowded ! 2) = 8 \<and>
   bEndpointAddress (hid_endpoints example_crowded ! 2) = 0x85 \<and>
   configured_interval example_crowded = 1 \<and>
   bInterval (hid_endpoints (patch_or_restore_dualsense_endpoints False 0 0 example_crowded) ! 2) = 1 \<and>
   find_restore_info
     (take (nat (num_actually_patched_eps (patch_or_restore_dualsense_endpoints False 0 0 example_crowded)))
           (restore_infos (patch_or_restore_dualsense_endpoints False 0 0 example_crowded))) 0x85 = Some 8 \<and>
   bInterval (hid_endpoints
     (patch_or_restore_dualsense_endpoints False 0 0 ((patch_or_restore_dualsense_endpoints False 0 0 example_crowded)\<lparr>configured_interval := 2\<rparr>)) ! 2) = 1 \<and>
   num_actually_patched_eps
     (patch_or_restore_dualsense_endpoints False 0 0 ((patch_or_restore_dualsense_endpoints False 0 0 example_crowded)\<lparr>configured_interval := 2\<rparr>)) = 2 \<and>
   find_restore_info
     (take (nat (num_actually_patched_eps
              (patch_or_restore_dualsense_endpoints False 0 0 ((patch_or_restore_dualsense_endpoints False 0 0 example_crowded)\<lparr>configured_interval := 2\<rparr>))))
           (restore_infos
              (patch_or_restore_dualsense_endpoints False 0 0 ((patch_or_restore_dualsense_endpoints False 0 0 example_crowded)\<lparr>configured_interval := 2\<rparr>))))
     0x85 = None"
  by (simp add: engine_defs example_defs)

text \<open>
  C3: whatever notifier calls, enumeration visits and rate changes reach the module,
  it holds at most one device reference, and that reference is on the device in the
  slot. While the slot is taken, an Add event and an enumeration visit leave the
  whole state as it was, so no second device is acquired.
\<close>

theorem at_most_one_device_managed:
  assumes "one_reference s"
  shows "one_reference (run evs s) \<and>
         length (acquired (calls (run evs s))) \<le> 1 \<and>
         (dualsense_device (run evs s) \<noteq> None \<longrightarrow>
            on_usb_notify USB_DEVICE_ADD device ret_lock ret_reset (run evs s) = (NOTIFY_OK, run evs s) \<and>
            snd (check_existing_device_cb device ret_lock ret_reset (run evs s)) = run evs s)"
proof -
  from run_one_reference[OF assms] have o: "one_reference (run evs s)" .
  then have "length (acquired (calls (run evs s))) \<le> 1"
    by (simp add: one_reference_def split: option.splits)
  moreover have "on_usb_notify USB_DEVICE_ADD device ret_lock ret_reset t = (NOTIFY_OK, t) \<and>
      snd (check_existing_device_cb device ret_lock ret_reset t) = t"
    if "dualsense_device t \<noteq> None" for t
    using that by (auto simp: on_usb_notify_def check_existing_device_cb_def)
  ultimately show ?thesis using o by blast
qed

theorem at_most_one_device_managed_witness:
  "one_reference example_unmanaged \<and>
   dualsense_device (run example_events example_unmanaged) = Some 1 \<and>
   acquired (calls (run example_events example_unmanaged)) = [1] \<and>
   on_usb_notify USB_DEVICE_ADD 2 0 0 (run example_events example_unmanaged)
     = (NOTIFY_OK, run example_events example_unmanaged) \<and>
   snd (check_existing_device_cb 3 0 0 (run example_events example_unmanaged))
     = run example_events example_unmanaged"
proof -
  have h: "one_reference example_unmanaged"
    by (simp add: one_reference_def acquired_def example_defs)
  have d: "dualsense_device (run example_events example_unmanaged) = Some 1"
    by (simp add: tracker_defs engine_defs example_defs)
  from at_most_one_device_managed[OF h, of example_events 2 0 0]
    at_most_one_device_managed[OF h, of example_events 3 0 0] h d
  show ?thesis by (simp add: one_reference_def)
qed

text \<open>
  C4: whenever a walk changed an endpoint, the engine asks for the reset lock, then
  resets, then unlocks exactly when the lock call returned 0. A failed lock does not
  stop the reset and only the unlock is left out; with the lock held the unlock
  follows whatever the reset returned.
\<close>

theorem unlock_iff_lock_succeeded:
  assumes "fst (walk_dualsense_endpoints restore s)"
  shows "\<exists>dev. dualsense_device s = Some dev \<and>
     calls (patch_or_restore_dualsense_endpoints restore ret_lock ret_reset s) =
       calls s @ [Usb_lock_device_for_reset dev, Usb_reset_device dev]
         @ (if ret_lock = 0 then [Usb_unlock_device dev] else [])"
proof (cases restore s rule: walk_dualsense_cases)
  case absent
  with assms show ?thesis by simp
next
  case (present dev config)
  with assms show ?thesis by (simp add: engine_calls)
qed

theorem unlock_iff_lock_succeeded_witness:
  "fst (walk_dualsense_endpoints False example_two) \<and>
   calls (patch_or_restore_dualsense_endpoints False 0 (- 19) example_two) =
     [Usb_get_dev 1, Usb_lock_device_for_reset 1, Usb_reset_device 1, Usb_unlock_device 1] \<and>
   calls (patch_or_restore_dualsense_endpoints False (- 16) 0 example_two) =
     [Usb_get_dev 1, Usb_lock_device_for_reset 1, Usb_reset_device 1]"
proof -
  have h: "fst (walk_dualsense_endpoints False example_two)"
    by (simp add: engine_defs example_defs)
  have d: "dualsense_device example_two = Some 1" "calls example_two = [Usb_get_dev 1]"
    by (simp_all add: example_defs)
  from unlock_iff_lock_succeeded[OF h, of 0 "- 19"] unlock_iff_lock_succeeded[OF h, of "- 16" 0] h d
  show ?thesis by simp
qed

text \<open>
  C5: with the table of two entries, an interrupt endpoint reached after two earlier
  endpoints were patched is left alone. Patch leaves its descriptor as it was and
  records no entry under its address, and a following Restore leaves it as it was too.
  Endpoint addresses are unique.
\<close>

theorem third_endpoint_left_alone:
  assumes len: "length (restore_infos s) = 2"
    and j: "j < length (hid_endpoints s)"
    and int: "is_int_ep (hid_endpoints s ! j)"
    and dist: "distinct (map bEndpointAddress (filter is_int_ep (hid_endpoints s)))"
    and full: "2 \<le> length (filter (needs_patch (configured_interval s)) (take j (hid_endpoints s)))"
  shows
    "hid_endpoints (patch_or_restore_dualsense_endpoints False rl1 rr1 s) ! j = hid_endpoints s ! j \<and>
     find_restore_info
        (take (nat (num_actually_patched_eps (patch_or_restore_dualsense_endpoints False rl1 rr1 s)))
              (restore_infos (patch_or_restore_dualsense_endpoints False rl1 rr1 s)))
        (bEndpointAddress (hid_endpoints s ! j)) = None \<and>
     hid_endpoints (patch_or_restore_dualsense_endpoints True rl2 rr2
        (patch_or_restore_dualsense_endpoints False rl1 rr1 s)) ! j = hid_endpoints s ! j"
proof -
  let ?s1 = "patch_or_restore_dualsense_endpoints False rl1 rr1 s"
  from j have ne: "hid_endpoints s \<noteq> []" by auto
  note w = engine_patch_walk[OF ne, of rl1 rr1]
  from len have len2: "2 \<le> length (restore_infos s)" by simp
  from full have full': "2 \<le> length (filter (needs_patch (configured_interval s)) (take j (hid_endpoints s)))
     \<or> \<not> needs_patch (configured_interval s) (hid_endpoints s ! j)" by simp
  note ps = patch_skip_at[OF len2 j int dist full' w]
  have j1: "j < length (hid_endpoints ?s1)" using j by (simp add: engine_patch_length)
  have "hid_endpoints (patch_or_restore_dualsense_endpoints True rl2 rr2 ?s1) ! j
      = restore_one (restore_infos ?s1) (num_actually_patched_eps ?s1) (hid_endpoints ?s1 ! j)"
    using j1 by (simp add: engine_restore_endpoints)
  also have "\<dots> = hid_endpoints s ! j"
    using ps by (simp add: restore_one_def)
  finally show ?thesis using ps by simp
qed


theorem third_endpoint_left_alone_witness:
  "length (restore_infos example_three) = 2 \<and>
   hid_endpoints example_three = [example_in, example_out, example_third] \<and>
   needs_patch 1 example_in \<and> needs_patch 1 example_out \<and> needs_patch 1 example_third \<and>
   configured_interval example_three = 1 \<and>
   hid_endpoints (patch_or_restore_dualsense_endpoints False 0 0 example_three) ! 2 = example_third \<and>
   find_restore_info
     (take (nat (num_actually_patched_eps (patch_or_restore_dualsense_endpoints False 0 0 example_three)))
           (restore_infos (patch_or_restore_dualsense_endpoints False 0 0 example_three))) 0x85 = None \<and>
   hid_endpoints (patch_or_restore_dualsense_endpoints True 0 0 (patch_or_restore_dualsense_endpoints False 0 0 example_three)) ! 2 = example_third"
proof -
  have e: "hid_endpoints example_three = [example_in, example_out, example_third]"
    "configured_interval example_three = 1"
    by (simp_all add: engine_defs example_defs)
  have i: "is_int_ep example_out" "is_int_ep example_in" "is_int_ep example_third"
    "needs_patch 1 example_in" "needs_patch 1 example_out" "needs_patch 1 example_third"
    "bEndpointAddress example_third = 0x85"
    by (simp_all add: needs_patch_def engine_defs example_defs)
  have h1: "length (restore_infos example_three) = 2" by (simp add: example_defs)
  have h2: "2 < length (hid_endpoints example_three)" by (simp add: e)
  have h3: "is_int_ep (hid_endpoints example_three ! 2)" by (simp add: e i)
  have h4: "distinct (map bEndpointAddress (filter is_int_ep (hid_endpoints example_three)))"
    by (simp add: e i) (simp add: example_defs)
  have h5: "2 \<le> length (filter (needs_patch (configured_interval example_three))
              (take 2 (hid_endpoints example_three)))"
    by (simp add: e i)
  from third_endpoint_left_alone[OF h1 h2 h3 h4 h5, of 0 0 0 0] h1 e i
  show ?thesis by simp
qed

text \<open>
  C6: a patch walk over endpoints that all sit at the target already changes nothing.
  If every interrupt endpoint of the HID interface has the configured interval, the
  walk reports no change, device memory is as before, and no lock, reset or unlock
  is requested.
\<close>

theorem patch_at_target_changes_nothing:
  assumes "\<forall>epd\<in>set (hid_endpoints s).
             is_int_ep epd \<longrightarrow> ucast (bInterval epd) = configured_interval s"
  shows "\<not> fst (walk_dualsense_endpoints False s) \<and>
         memory (patch_or_restore_dualsense_endpoints False ret_lock ret_reset s) = memory s \<and>
         calls (patch_or_restore_dualsense_endpoints False ret_lock ret_reset s) = calls s"
proof (cases False s rule: walk_dualsense_cases)
  case absent
  then show ?thesis by (simp add: engine_fields engine_calls)
next
  case (present dev config)
  obtain ch s' where w: "walk_dualsense_endpoints False s = (ch, s')"
    by (cases "walk_dualsense_endpoints False s")
  from assms have "\<forall>epd\<in>set (hid_endpoints s). \<not> needs_patch (configured_interval s) epd"
    by (simp add: needs_patch_def)
  from patch_walk_nochange[OF this, of "restore_infos s" 0 False]
    walk_dualsense_char(1)[OF present w]
  have "hid_endpoints s' = hid_endpoints s" and "\<not> ch" by simp_all
  with walk_dualsense_char(5)[OF present w] show ?thesis
    by (simp add: engine_fields engine_calls w)
qed

theorem patch_at_target_changes_nothing_witness:
  "hid_endpoints (example_managed 2 [example_in, example_out] 6) = [example_in, example_out] \<and>
   configured_interval (example_managed 2 [example_in, example_out] 6) = 6 \<and>
   bInterval example_in = 6 \<and> bInterval example_out = 6 \<and>
   \<not> fst (walk_dualsense_endpoints False (example_managed 2 [example_in, example_out] 6)) \<and>
   memory (patch_or_restore_dualsense_endpoints False 0 0
             (example_managed 2 [example_in, example_out] 6))
     = memory (example_managed 2 [example_in, example_out] 6) \<and>
   calls (patch_or_restore_dualsense_endpoints False 0 0
             (example_managed 2 [example_in, example_out] 6)) = [Usb_get_dev 1]"
proof -
  have h: "\<forall>epd\<in>set (hid_endpoints (example_managed 2 [example_in, example_out] 6)).
      is_int_ep epd \<longrightarrow>
      ucast (bInterval epd) = configured_interval (example_managed 2 [example_in, example_out] 6)"
    by (simp add: engine_defs example_defs)
  have c: "calls (example_managed 2 [example_in, example_out] 6) = [Usb_get_dev 1]"
    by (simp add: example_defs)
  have e: "hid_endpoints (example_managed 2 [example_in, example_out] 6) = [example_in, example_out]"
    "configured_interval (example_managed 2 [example_in, example_out] 6) = 6"
    "bInterval example_in = 6" "bInterval example_out = 6"
    by (simp_all add: engine_defs example_defs)
  from patch_at_target_changes_nothing[OF h, of 0 0] c e show ?thesis by simp
qed

text \<open>
  C7: the rate parameter is validated and clamped. Whatever raw value a successful
  parse hands to \<open>on_interval_changed\<close>, and whatever value \<open>ds_oc_init\<close> finds in
  \<open>configured_interval\<close>, the effective target is 1 for 0, 255 for every value above
  255, and the value itself otherwise. In particular 0 gives 1, 9999 gives 255 and 42
  stays 42, at run time and at module initialisation.
\<close>

theorem target_interval_clamped:
  "configured_interval (snd (on_interval_changed (Inr raw) ret_lock ret_reset s)) =
     (if raw = 0 then 1 else if raw > 255 then 255 else raw) \<and>
   configured_interval (snd (ds_oc_init present ret_lock ret_reset s)) =
     (if configured_interval s = 0 then 1
      else if configured_interval s > 255 then 255
      else configured_interval s) \<and>
   configured_interval (snd (on_interval_changed (Inr 0) ret_lock ret_reset s)) = 1 \<and>
   configured_interval (snd (on_interval_changed (Inr 9999) ret_lock ret_reset s)) = 255 \<and>
   configured_interval (snd (on_interval_changed (Inr 42) ret_lock ret_reset s)) = 42 \<and>
   configured_interval
     (snd (ds_oc_init present ret_lock ret_reset (s\<lparr>configured_interval := 0\<rparr>))) = 1 \<and>
   configured_interval
     (snd (ds_oc_init present ret_lock ret_reset (s\<lparr>configured_interval := 9999\<rparr>))) = 255 \<and>
   configured_interval
     (snd (ds_oc_init present ret_lock ret_reset (s\<lparr>configured_interval := 42\<rparr>))) = 42"
  by (simp add: on_interval_changed_value ds_oc_init_value)

theorem target_interval_clamped_witness:
  "configured_interval (snd (on_interval_changed (Inr 300) 0 0 example_two)) = 255 \<and>
   configured_interval (snd (on_interval_changed (Inr 65535) 0 0 example_two)) = 255 \<and>
   configured_interval (snd (on_interval_changed (Inr 255) 0 0 example_two)) = 255 \<and>
   configured_interval (snd (on_interval_changed (Inr 9999) 0 0 example_two)) = 255 \<and>
   configured_interval (snd (ds_oc_init [1] 0 0 (example_unmanaged\<lparr>configured_interval := 256\<rparr>))) = 255 \<and>
   configured_interval (snd (ds_oc_init [1] 0 0 (example_unmanaged\<lparr>configured_interval := 0\<rparr>))) = 1"
  using target_interval_clamped[where raw = 300 and ret_lock = 0 and ret_reset = 0
      and s = example_two and present = "[1]"]
    target_interval_clamped[where raw = 65535 and ret_lock = 0 and ret_reset = 0
      and s = example_two and present = "[1]"]
    target_interval_clamped[where raw = 255 and ret_lock = 0 and ret_reset = 0
      and s = "example_unmanaged\<lparr>configured_interval := 256\<rparr>" and present = "[1]"]
    target_interval_clamped[where raw = 255 and ret_lock = 0 and ret_reset = 0
      and s = example_two and present = "[1]"]
    target_interval_clamped[where raw = 0 and ret_lock = 0 and ret_reset = 0
      and s = example_unmanaged and present = "[1]"]
  by simp

text \<open>
  C8: a Remove event for the managed device gives the reference back, empties the slot
  and sets the entry count to zero, and does nothing else: the returned state differs
  from the old one in these three fields only, so no descriptor is written and no
  lock or reset is requested. The device in the slot carries the DualSense ids, which
  every event preserves (\<open>run_managed_is_dualsense\<close>).
\<close>

theorem remove_releases_without_restore:
  assumes "dualsense_device s = Some dev" and "managed_is_dualsense s"
  shows "on_usb_notify USB_DEVICE_REMOVE dev ret_lock ret_reset s =
     (NOTIFY_OK, s\<lparr>calls := calls s @ [Usb_put_dev dev],
                   dualsense_device := None,
                   num_actually_patched_eps := 0\<rparr>)"
  using assms
  by (simp add: on_usb_notify_def managed_is_dualsense_def USB_DEVICE_REMOVE_def USB_DEVICE_ADD_def)

theorem remove_releases_without_restore_witness:
  "dualsense_device (run [Hotplug USB_DEVICE_ADD 1 0 0] example_unmanaged) = Some 1 \<and>
   num_actually_patched_eps (run [Hotplug USB_DEVICE_ADD 1 0 0] example_unmanaged) = 2 \<and>
   on_usb_notify USB_DEVICE_REMOVE 1 0 0 (run [Hotplug USB_DEVICE_ADD 1 0 0] example_unmanaged) =
     (NOTIFY_OK, (run [Hotplug USB_DEVICE_ADD 1 0 0] example_unmanaged)
        \<lparr>calls := [Usb_get_dev 1, Usb_lock_device_for_reset 1, Usb_reset_device 1,
                   Usb_unlock_device 1, Usb_put_dev 1],
         dualsense_device := None,
         num_actually_patched_eps := 0\<rparr>)"
proof -
  let ?s = "run [Hotplug USB_DEVICE_ADD 1 0 0] example_unmanaged"
  have "managed_is_dualsense example_unmanaged"
    by (simp add: managed_is_dualsense_def example_defs)
  then have m: "managed_is_dualsense ?s" by (rule run_managed_is_dualsense)
  have d: "dualsense_device ?s = Some 1"
    and c: "calls ?s = [Usb_get_dev 1, Usb_lock_device_for_reset 1, Usb_reset_device 1,
                   Usb_unlock_device 1]"
    and n: "num_actually_patched_eps ?s = 2"
    by (simp_all add: tracker_defs engine_defs example_defs)
  from remove_releases_without_restore[OF d m, of 0 0] d c n show ?thesis by simp
qed

text \<open>
  C9: an interrupt endpoint that a patch walk finds at the target already is not
  committed to the table. Its step leaves the counter where it was, whatever room there
  is, so the count after the walk is the number of endpoints that needed patching
  (at most two), the table holds no entry under its address, and a following Restore
  leaves the endpoint as it was. Endpoint addresses are unique.
\<close>

theorem unchanged_endpoint_not_committed:
  assumes len: "length (restore_infos s) = 2"
    and j: "j < length (hid_endpoints s)"
    and int: "is_int_ep (hid_endpoints s ! j)"
    and same: "ucast (bInterval (hid_endpoints s ! j)) = configured_interval s"
    and dist: "distinct (map bEndpointAddress (filter is_int_ep (hid_endpoints s)))"
  shows
    "fst (snd (snd (endpoint_step False (configured_interval s) (hid_endpoints s ! j) (infos, n, ch)))) = n \<and>
     num_actually_patched_eps (patch_or_restore_dualsense_endpoints False rl1 rr1 s)
       = min 2 (int (length (filter (needs_patch (configured_interval s)) (hid_endpoints s)))) \<and>
     \<not> needs_patch (configured_interval s) (hid_endpoints s ! j) \<and>
     find_restore_info
        (take (nat (num_actually_patched_eps (patch_or_restore_dualsense_endpoints False rl1 rr1 s)))
              (restore_infos (patch_or_restore_dualsense_endpoints False rl1 rr1 s)))
        (bEndpointAddress (hid_endpoints s ! j)) = None \<and>
     hid_endpoints (patch_or_restore_dualsense_endpoints True rl2 rr2
        (patch_or_restore_dualsense_endpoints False rl1 rr1 s)) ! j = hid_endpoints s ! j"
proof -
  let ?s1 = "patch_or_restore_dualsense_endpoints False rl1 rr1 s"
  from j have ne: "hid_endpoints s \<noteq> []" by auto
  note w = engine_patch_walk[OF ne, of rl1 rr1]
  from len have len2: "2 \<le> length (restore_infos s)" by simp
  from same have nn: "\<not> needs_patch (configured_interval s) (hid_endpoints s ! j)"
    by (simp add: needs_patch_def)
  then have full': "2 \<le> length (filter (needs_patch (configured_interval s)) (take j (hid_endpoints s)))
     \<or> \<not> needs_patch (configured_interval s) (hid_endpoints s ! j)" by simp
  note ps = patch_skip_at[OF len2 j int dist full' w]
  have j1: "j < length (hid_endpoints ?s1)" using j by (simp add: engine_patch_length)
  have "hid_endpoints (patch_or_restore_dualsense_endpoints True rl2 rr2 ?s1) ! j
      = restore_one (restore_infos ?s1) (num_actually_patched_eps ?s1) (hid_endpoints ?s1 ! j)"
    using j1 by (simp add: engine_restore_endpoints)
  also have "\<dots> = hid_endpoints s ! j"
    using ps by (simp add: restore_one_def)
  finally have r: "hid_endpoints (patch_or_restore_dualsense_endpoints True rl2 rr2 ?s1) ! j
      = hid_endpoints s ! j" .
  have st: "fst (snd (snd (endpoint_step False (configured_interval s) (hid_endpoints s ! j) (infos, n, ch)))) = n"
    using nn by (simp add: patch_step)
  from st patch_walk_from_zero(1)[OF len2 w] nn ps(2) r show ?thesis by simp
qed


theorem unchanged_endpoint_not_committed_witness:
  "length (restore_infos example_mixed) = 2 \<and>
   hid_endpoints example_mixed = [example_in\<lparr>bInterval := 1\<rparr>, example_out] \<and>
   configured_interval example_mixed = 1 \<and>
   fst (snd (snd (endpoint_step False 1 (example_in\<lparr>bInterval := 1\<rparr>)
                    (restore_infos example_mixed, 0, False)))) = 0 \<and>
   num_actually_patched_eps (patch_or_restore_dualsense_endpoints False 0 0 example_mixed) = 1 \<and>
   find_restore_info
     (take (nat (num_actually_patched_eps (patch_or_restore_dualsense_endpoints False 0 0 example_mixed)))
           (restore_infos (patch_or_restore_dualsense_endpoints False 0 0 example_mixed))) 0x84 = None \<and>
   hid_endpoints (patch_or_restore_dualsense_endpoints True 0 0 (patch_or_restore_dualsense_endpoints False 0 0 example_mixed)) ! 0
     = example_in\<lparr>bInterval := 1\<rparr>"
proof -
  have e: "hid_endpoints example_mixed = [example_in\<lparr>bInterval := 1\<rparr>, example_out]"
    "configured_interval example_mixed = 1"
    by (simp_all add: engine_defs example_defs)
  have i: "is_int_ep example_out" "is_int_ep (example_in\<lparr>bInterval := 1\<rparr>)"
    "bEndpointAddress (example_in\<lparr>bInterval := 1\<rparr>) = 0x84"
    "needs_patch 1 example_out" "\<not> needs_patch 1 (example_in\<lparr>bInterval := 1\<rparr>)"
    by (simp_all add: needs_patch_def engine_defs example_defs)
  have h1: "length (restore_infos example_mixed) = 2" by (simp add: example_defs)
  have h2: "0 < length (hid_endpoints example_mixed)" by (simp add: e)
  have h3: "is_int_ep (hid_endpoints example_mixed ! 0)" by (simp add: e i)
  have h4: "ucast (bInterval (hid_endpoints example_mixed ! 0)) = configured_interval example_mixed"
    by (simp add: e)
  have h5: "distinct (map bEndpointAddress (filter is_int_ep (hid_endpoints example_mixed)))"
    by (simp add: e i) (simp add: example_defs)
  from unchanged_endpoint_not_committed[OF h1 h2 h3 h4 h5,
      of "restore_infos example_mixed" 0 False 0 0 0 0] h1 e i
  show ?thesis by auto
qed

text \<open>
  C10: a restore walk never writes the Interval Store. The table and the counter are
  the same before and after the engine runs in restore mode, and so they are after
  \<open>ds_oc_exit\<close>, the one caller that restores.
\<close>

theorem restore_leaves_interval_store:
  "restore_infos (patch_or_restore_dualsense_endpoints True ret_lock ret_reset s) = restore_infos s \<and>
   num_actually_patched_eps (patch_or_restore_dualsense_endpoints True ret_lock ret_reset s)
     = num_actually_patched_eps s \<and>
   restore_infos (ds_oc_exit ret_lock ret_reset s) = restore_infos s \<and>
   num_actually_patched_eps (ds_oc_exit ret_lock ret_reset s) = num_actually_patched_eps s"
  using engine_restore_store[of ret_lock ret_reset s]
    engine_restore_store[of ret_lock ret_reset "s\<lparr>calls := calls s @ [Usb_unregister_notify]\<rparr>"]
  by (simp add: ds_oc_exit_def Let_def split: option.splits)

theorem restore_leaves_interval_store_witness:
  "restore_infos (patch_or_restore_dualsense_endpoints True 0 0
      (patch_or_restore_dualsense_endpoints False 0 0 example_two))
     = [\<lparr>ep_address = 0x84, original_interval = 6\<rparr>, \<lparr>ep_address = 0x03, original_interval = 6\<rparr>] \<and>
   num_actually_patched_eps (patch_or_restore_dualsense_endpoints True 0 0
      (patch_or_restore_dualsense_endpoints False 0 0 example_two)) = 2"
proof -
  have "restore_infos (patch_or_restore_dualsense_endpoints False 0 0 example_two)
     = [\<lparr>ep_address = 0x84, original_interval = 6\<rparr>, \<lparr>ep_address = 0x03, original_interval = 6\<rparr>]"
    and "num_actually_patched_eps (patch_or_restore_dualsense_endpoints False 0 0 example_two) = 2"
    by (simp_all add: engine_defs example_defs)
  with restore_leaves_interval_store[of 0 0 "patch_or_restore_dualsense_endpoints False 0 0 example_two"]
  show ?thesis by simp
qed

end
